theory Spec2Isabelle
  imports Complex_Main "HOL-Library.Log_Nat"
begin

section \<open>The JavaScript platform, as far as conical.js uses it\<close>

text \<open>
  The library under verification is the class \<^verbatim>\<open>Conical\<close> of \<^verbatim>\<open>src/conical.js\<close>.
  It calls a handful of built-ins: \<^verbatim>\<open>localStorage\<close>, \<^verbatim>\<open>parseInt\<close>, number to string
  conversion, \<^verbatim>\<open>JSON.stringify\<close>, \<^verbatim>\<open>JSON.parse\<close>, \<^verbatim>\<open>Math.floor\<close>, \<^verbatim>\<open>Math.min\<close>,
  \<^verbatim>\<open>Math.max\<close> and a randomness source. They are modelled first.

  Conventions.
  \<^item> A JavaScript string is a \<open>string\<close>: a list of 8-bit characters, so code units
    above 255 are outside the model.
  \<^item> A JavaScript number is a \<open>number\<close>: an IEEE 754 double, with the arithmetic of the
    language on it, rounding included (see below). What \<^verbatim>\<open>parseInt\<close> returns is an
    \<open>int option\<close>, with \<open>None\<close> for \<^verbatim>\<open>NaN\<close>.
  \<^item> A thrown exception is \<open>Inl\<close> of an \<open>exn\<close>; the state reached when it was thrown
    is returned beside it, since JavaScript does not roll anything back.
\<close>

datatype exn =
  Error string  \<comment> \<open>\<^verbatim>\<open>throw new Error(message)\<close>\<close>
  | TypeError   \<comment> \<open>property access on \<^verbatim>\<open>undefined\<close>/\<^verbatim>\<open>null\<close>, call of a non-function\<close>
  | SyntaxError \<comment> \<open>\<^verbatim>\<open>JSON.parse\<close> of a malformed text\<close>
  | Thrown nat  \<comment> \<open>an exception thrown by a user callback\<close>

subsection \<open>Numbers\<close>

text \<open>
  A JavaScript number is \<^verbatim>\<open>NaN\<close>, one of the two infinities, or a finite double, given
  here by its exact value. The finite doubles are the rationals \<open>m * 2^e\<close> with
  \<open>\<bar>m\<bar> < 2^53\<close> and \<open>- 1074 \<le> e \<le> 971\<close>. The two zeros are one \<open>Fin 0\<close>: the library
  never divides by a number and never prints one that can be a zero with a sign, and
  every operation it does use treats both zeros alike.
\<close>

datatype number = NaN | NegInfinity | Fin rat | Infinity

text \<open>For \<open>q > 0\<close>, the exponent \<open>e\<close> with \<open>2^e \<le> q < 2^(e+1)\<close>.\<close>

definition binade :: "rat \<Rightarrow> int" where
  "binade q =
     (let (a, b) = quotient_of q; e0 = bitlen a - bitlen b
      in if 2 powi e0 \<le> q then e0 else e0 - 1)"

text \<open>The nearest integer, the even one of two that are equally near.\<close>

definition round_half_even :: "rat \<Rightarrow> int" where
  "round_half_even x =
     (let f = \<lfloor>x\<rfloor>; d = x - of_int f
      in if d < 1 / 2 then f else if 1 / 2 < d then f + 1 else if even f then f else f + 1)"

text \<open>
  The rounding of IEEE 754 binary64, to nearest with ties to even: the significand has 53
  bits, the least exponent is that of the subnormal numbers, and a result of magnitude
  \<open>2^1024\<close> is infinite. Every arithmetic operation of the language returns the exact
  result rounded so; a decimal literal denotes its value rounded so.
\<close>

definition to_double :: "rat \<Rightarrow> number" where
  "to_double q =
     (if q = 0 then Fin 0
      else
        (let e = max (binade \<bar>q\<bar>) (- 1022);
             ulp = 2 powi (e - 52);
             r = of_int (round_half_even (q / ulp)) * ulp
         in if 2 powi 1024 \<le> r then Infinity
            else if r \<le> - (2 powi 1024) then NegInfinity
            else Fin r))"

text \<open>The operator \<^verbatim>\<open>+\<close> on two numbers.\<close>

fun Number_add :: "number \<Rightarrow> number \<Rightarrow> number" where
  "Number_add (Fin a) (Fin b) = to_double (a + b)"
| "Number_add NaN y = NaN"
| "Number_add x NaN = NaN"
| "Number_add Infinity NegInfinity = NaN"
| "Number_add NegInfinity Infinity = NaN"
| "Number_add Infinity y = Infinity"
| "Number_add x Infinity = Infinity"
| "Number_add NegInfinity y = NegInfinity"
| "Number_add x NegInfinity = NegInfinity"

fun Number_sgn :: "number \<Rightarrow> int" where
  "Number_sgn NaN = 0"
| "Number_sgn NegInfinity = - 1"
| "Number_sgn (Fin q) = (if q < 0 then - 1 else if q = 0 then 0 else 1)"
| "Number_sgn Infinity = 1"

text \<open>The operator \<^verbatim>\<open>*\<close> on two numbers; an infinity times zero is \<^verbatim>\<open>NaN\<close>.\<close>

fun Number_mul :: "number \<Rightarrow> number \<Rightarrow> number" where
  "Number_mul (Fin a) (Fin b) = to_double (a * b)"
| "Number_mul NaN y = NaN"
| "Number_mul x NaN = NaN"
| "Number_mul x y =
     (if Number_sgn x * Number_sgn y = 0 then NaN
      else if 0 < Number_sgn x * Number_sgn y then Infinity
      else NegInfinity)"

text \<open>The operator \<^verbatim>\<open><\<close> on two numbers: false when either is \<^verbatim>\<open>NaN\<close>.\<close>

fun Number_lt :: "number \<Rightarrow> number \<Rightarrow> bool" where
  "Number_lt (Fin a) (Fin b) = (a < b)"
| "Number_lt NaN y = False"
| "Number_lt x NaN = False"
| "Number_lt x NegInfinity = False"
| "Number_lt NegInfinity y = True"
| "Number_lt Infinity y = False"
| "Number_lt x Infinity = True"

text \<open>The operator \<^verbatim>\<open>>=\<close>: false when either is \<^verbatim>\<open>NaN\<close>, otherwise the negation of \<^verbatim>\<open><\<close>.\<close>

definition Number_ge :: "number \<Rightarrow> number \<Rightarrow> bool" where
  "Number_ge x y \<longleftrightarrow> x \<noteq> NaN \<and> y \<noteq> NaN \<and> \<not> Number_lt x y"

definition Math_max :: "number \<Rightarrow> number \<Rightarrow> number" where
  "Math_max x y = (if x = NaN \<or> y = NaN then NaN else if Number_lt x y then y else x)"

definition Math_min :: "number \<Rightarrow> number \<Rightarrow> number" where
  "Math_min x y = (if x = NaN \<or> y = NaN then NaN else if Number_lt y x then y else x)"

fun Math_floor :: "number \<Rightarrow> number" where
  "Math_floor (Fin q) = Fin (of_int \<lfloor>q\<rfloor>)"
| "Math_floor x = x"

text \<open>\<^verbatim>\<open>ToBoolean\<close> of a number: \<^verbatim>\<open>NaN\<close> and zero are falsy.\<close>

definition ToBoolean_number :: "number \<Rightarrow> bool" where
  "ToBoolean_number x \<longleftrightarrow> x \<noteq> NaN \<and> x \<noteq> Fin 0"

text \<open>
  What \<^verbatim>\<open>parseInt\<close> returned, as the number it is: \<^verbatim>\<open>NaN\<close>, or the integer read, rounded
  to a double when it has more than 53 bits.
\<close>

definition parsed_number :: "int option \<Rightarrow> number" where
  "parsed_number n = (case n of None \<Rightarrow> NaN | Some i \<Rightarrow> to_double (of_int i))"

subsection \<open>Numbers and strings\<close>

definition digit_char :: "nat \<Rightarrow> char" where
  "digit_char d = ''0123456789'' ! d"

text \<open>Decimal digits of a natural number, most significant first.\<close>

function nat_toString :: "nat \<Rightarrow> string" where
  "nat_toString n =
     (if n < 10 then [digit_char n] else nat_toString (n div 10) @ [digit_char (n mod 10)])"
  by pat_completeness auto
termination
  by (relation "measure (\<lambda>n. n)") auto

declare nat_toString.simps [simp del]

text \<open>
  \<^verbatim>\<open>String(n)\<close> for an integral number, which is what \<^verbatim>\<open>localStorage.setItem\<close> applies to
  a number: the decimal digits, with a minus sign for a negative one (JavaScript switches
  to exponent notation from \<open>10^21\<close> on; the identities of this library are far below).
\<close>

definition Number_toString :: "int \<Rightarrow> string" where
  "Number_toString i = (if i < 0 then CHR ''-'' # nat_toString (nat (- i)) else nat_toString (nat i))"

text \<open>
  \<^verbatim>\<open>String(x)\<close> for a number that is not finite or is integral; \<^verbatim>\<open>setItem\<close> is given no
  other. An integral number from \<open>10^21\<close> on, which the language prints in exponent
  notation, is outside the model.
\<close>

definition ToString_number :: "number \<Rightarrow> string" where
  "ToString_number x =
     (case x of
        NaN \<Rightarrow> ''NaN''
      | Infinity \<Rightarrow> ''Infinity''
      | NegInfinity \<Rightarrow> ''-Infinity''
      | Fin q \<Rightarrow> Number_toString \<lfloor>q\<rfloor>)"

text \<open>The white space that \<^verbatim>\<open>parseInt\<close> skips (the 8-bit part of \<^verbatim>\<open>StrWhiteSpaceChar\<close>).\<close>

definition is_StrWhiteSpaceChar :: "char \<Rightarrow> bool" where
  "is_StrWhiteSpaceChar c \<longleftrightarrow> of_char c \<in> {9, 10, 11, 12, 13, 32, 160 :: nat}"

text \<open>The value of a character as a digit in a radix up to 36.\<close>

definition digit_value :: "char \<Rightarrow> nat option" where
  "digit_value c =
     (let n = of_char c :: nat in
      if 48 \<le> n \<and> n \<le> 57 then Some (n - 48)
      else if 97 \<le> n \<and> n \<le> 122 then Some (n - 87)
      else if 65 \<le> n \<and> n \<le> 90 then Some (n - 55)
      else None)"

text \<open>The longest prefix of radix-\<open>R\<close> digits, as digit values.\<close>

fun read_digits :: "nat \<Rightarrow> string \<Rightarrow> nat list" where
  "read_digits R [] = []"
| "read_digits R (c # cs) =
     (case digit_value c of
        None \<Rightarrow> []
      | Some d \<Rightarrow> if d < R then d # read_digits R cs else [])"

definition digits_value :: "nat \<Rightarrow> nat list \<Rightarrow> nat" where
  "digits_value R ds = foldl (\<lambda>a d. a * R + d) 0 ds"

text \<open>
  \<^verbatim>\<open>parseInt(string)\<close> without a radix: skip white space, take a sign, take a \<^verbatim>\<open>0x\<close>
  prefix (radix 16, otherwise 10), read the longest prefix of digits; \<^verbatim>\<open>NaN\<close>
  (\<open>None\<close>) when there is no digit.
\<close>

definition parseInt :: "string \<Rightarrow> int option" where
  "parseInt inputString =
     (let S = dropWhile is_StrWhiteSpaceChar inputString;
          sign = (if take 1 S = ''-'' then - 1 else 1 :: int);
          S = (if take 1 S = ''-'' \<or> take 1 S = ''+'' then drop 1 S else S);
          hex = (take 2 S = ''0x'' \<or> take 2 S = ''0X'');
          R = (if hex then 16 else 10);
          S = (if hex then drop 2 S else S);
          Z = read_digits R S
      in if Z = [] then None else Some (sign * int (digits_value R Z)))"

text \<open>\<^verbatim>\<open>ToString\<close> of what \<^verbatim>\<open>getItem\<close> returns: \<^verbatim>\<open>null\<close> for a missing key.\<close>

definition ToString_item :: "string option \<Rightarrow> string" where
  "ToString_item v = (case v of None \<Rightarrow> ''null'' | Some s \<Rightarrow> s)"

subsection \<open>JSON\<close>

text \<open>
  A parsed JSON value. \<open>JNumber q\<close> is a number written in the text with the exact value
  \<open>q\<close>; the number that \<^verbatim>\<open>JSON.parse\<close> returns for it is \<open>to_double q\<close>.
\<close>

datatype json =
  JNull
  | JBool bool
  | JNumber rat
  | JString string
  | JArray "json list"
  | JObject "(string \<times> json) list"

definition hex_char :: "nat \<Rightarrow> char" where
  "hex_char d = ''0123456789abcdef'' ! d"

text \<open>\<^verbatim>\<open>QuoteJSONString\<close>, one code unit at a time.\<close>

definition JSON_quote_char :: "char \<Rightarrow> string" where
  "JSON_quote_char c =
     (let n = of_char c :: nat in
      if n = 8 then [CHR 0x5C, CHR ''b'']
      else if n = 9 then [CHR 0x5C, CHR ''t'']
      else if n = 10 then [CHR 0x5C, CHR ''n'']
      else if n = 12 then [CHR 0x5C, CHR ''f'']
      else if n = 13 then [CHR 0x5C, CHR ''r'']
      else if n = 34 then [CHR 0x5C, CHR 0x22]
      else if n = 92 then [CHR 0x5C, CHR 0x5C]
      else if n < 32 then
        [CHR 0x5C, CHR ''u'', CHR ''0'', CHR ''0'', hex_char (n div 16), hex_char (n mod 16)]
      else [c])"

definition JSON_quote :: "string \<Rightarrow> string" where
  "JSON_quote s = CHR 0x22 # concat (map JSON_quote_char s) @ [CHR 0x22]"

text \<open>
  \<^verbatim>\<open>JSON.stringify({ id: s })\<close> for a string \<open>s\<close>: the only value the library ever
  serialises.
\<close>

definition JSON_stringify_id :: "string \<Rightarrow> string" where
  "JSON_stringify_id s = [CHR ''{'', CHR 0x22, CHR ''i'', CHR ''d'', CHR 0x22, CHR '':''] @ JSON_quote s @ [CHR ''}'']"

text \<open>The JSON grammar of \<^verbatim>\<open>JSON.parse\<close>. White space is space, tab, line feed, carriage return.\<close>

definition is_JSON_ws :: "char \<Rightarrow> bool" where
  "is_JSON_ws c \<longleftrightarrow> of_char c \<in> {32, 9, 10, 13 :: nat}"

definition skip_ws :: "string \<Rightarrow> string" where
  "skip_ws s = dropWhile is_JSON_ws s"

definition hex_value :: "char \<Rightarrow> nat option" where
  "hex_value c = (case digit_value c of None \<Rightarrow> None | Some d \<Rightarrow> if d < 16 then Some d else None)"

text \<open>
  The characters of a string literal after its opening quote, up to the closing one.
  An escape \<^verbatim>\<open>\uXXXX\<close> above 255 names a code unit outside the 8-bit model and is
  refused here.
\<close>

fun parse_string_body :: "string \<Rightarrow> (string \<times> string) option" where
  "parse_string_body [] = None"
| "parse_string_body (c # cs) =
     (if c = CHR 0x22 then Some ([], cs)
      else if c = CHR 0x5C then
        (case cs of
           [] \<Rightarrow> None
         | e # r \<Rightarrow>
             if e = CHR ''u'' then
               (case r of
                  h1 # h2 # h3 # h4 # r' \<Rightarrow>
                    (case (hex_value h1, hex_value h2, hex_value h3, hex_value h4) of
                       (Some a, Some b, Some c', Some d) \<Rightarrow>
                         if a = 0 \<and> b = 0 then
                           map_option (\<lambda>(s, t). (char_of (c' * 16 + d) # s, t)) (parse_string_body r')
                         else None
                     | _ \<Rightarrow> None)
                | _ \<Rightarrow> None)
             else
               (case map_of
                  [(CHR 0x22, CHR 0x22), (CHR 0x5C, CHR 0x5C), (CHR ''/'', CHR ''/''),
                   (CHR ''b'', CHR 0x08), (CHR ''f'', CHR 0x0C), (CHR ''n'', CHR 0x0A),
                   (CHR ''r'', CHR 0x0D), (CHR ''t'', CHR 0x09)] e of
                  None \<Rightarrow> None
                | Some x \<Rightarrow> map_option (\<lambda>(s, t). (x # s, t)) (parse_string_body r)))
      else if (of_char c :: nat) < 32 then None
      else map_option (\<lambda>(s, t). (c # s, t)) (parse_string_body cs))"

text \<open>Decimal digits at the front of a text, and the rest.\<close>

definition span_digits :: "string \<Rightarrow> nat list \<times> string" where
  "span_digits s = (read_digits 10 s, drop (length (read_digits 10 s)) s)"

text \<open>
  A number literal: \<^verbatim>\<open>-? (0 | [1-9][0-9]*) (. [0-9]+)? ([eE] [+-]? [0-9]+)?\<close>,
  with its exact value.
\<close>

definition parse_number :: "string \<Rightarrow> (rat \<times> string) option" where
  "parse_number s =
     (let neg = (take 1 s = ''-'');
          s1 = (if neg then drop 1 s else s);
          (ip, s2) = span_digits s1
      in if ip = [] \<or> (hd ip = 0 \<and> length ip > 1) then None
         else
           (let frac = (if take 1 s2 = ''.'' then Some (span_digits (drop 1 s2)) else None)
            in if (case frac of Some (fp, _) \<Rightarrow> fp = [] | None \<Rightarrow> False) then None
               else
                 (let fp = (case frac of Some (fp, _) \<Rightarrow> fp | None \<Rightarrow> []);
                      s3 = (case frac of Some (_, t) \<Rightarrow> t | None \<Rightarrow> s2);
                      m = of_nat (digits_value 10 (ip @ fp)) / 10 ^ length fp :: rat;
                      m = (if neg then - m else m)
                  in if take 1 s3 = ''e'' \<or> take 1 s3 = ''E'' then
                       (let s4 = drop 1 s3;
                            eneg = (take 1 s4 = ''-'');
                            s5 = (if eneg \<or> take 1 s4 = ''+'' then drop 1 s4 else s4);
                            (ep, s6) = span_digits s5
                        in if ep = [] then None
                           else Some (if eneg then m / 10 ^ digits_value 10 ep
                                      else m * 10 ^ digits_value 10 ep, s6))
                     else Some (m, s3))))"

text \<open>
  Values, array elements and object members. The first argument bounds the number of
  nested calls; \<open>JSON_parse\<close> below starts with more than a text of that length can use.
  \<open>parse_elements\<close> and \<open>parse_members\<close> start after the opening bracket, on a text
  that is not the closing bracket.
\<close>

fun parse_value :: "nat \<Rightarrow> string \<Rightarrow> (json \<times> string) option"
  and parse_elements :: "nat \<Rightarrow> string \<Rightarrow> (json list \<times> string) option"
  and parse_members :: "nat \<Rightarrow> string \<Rightarrow> ((string \<times> json) list \<times> string) option"
  where
  "parse_value 0 s = None"
| "parse_value (Suc n) s =
     (case s of
        [] \<Rightarrow> None
      | c # r \<Rightarrow>
          if c = CHR ''{'' then
            (if take 1 (skip_ws r) = ''}'' then Some (JObject [], drop 1 (skip_ws r))
             else map_option (\<lambda>(ms, t). (JObject ms, t)) (parse_members n (skip_ws r)))
          else if c = CHR ''['' then
            (if take 1 (skip_ws r) = '']'' then Some (JArray [], drop 1 (skip_ws r))
             else map_option (\<lambda>(vs, t). (JArray vs, t)) (parse_elements n (skip_ws r)))
          else if c = CHR 0x22 then map_option (\<lambda>(x, t). (JString x, t)) (parse_string_body r)
          else if take 4 s = ''true'' then Some (JBool True, drop 4 s)
          else if take 5 s = ''false'' then Some (JBool False, drop 5 s)
          else if take 4 s = ''null'' then Some (JNull, drop 4 s)
          else map_option (\<lambda>(q, t). (JNumber q, t)) (parse_number s))"
| "parse_elements 0 s = None"
| "parse_elements (Suc n) s =
     (case parse_value n s of
        None \<Rightarrow> None
      | Some (v, t) \<Rightarrow>
          (case skip_ws t of
             [] \<Rightarrow> None
           | c # r \<Rightarrow>
               if c = CHR '']'' then Some ([v], r)
               else if c = CHR '','' then
                 map_option (\<lambda>(vs, u). (v # vs, u)) (parse_elements n (skip_ws r))
               else None))"
| "parse_members 0 s = None"
| "parse_members (Suc n) s =
     (case s of
        [] \<Rightarrow> None
      | q # r \<Rightarrow>
          if q \<noteq> CHR 0x22 then None
          else
            (case parse_string_body r of
               None \<Rightarrow> None
             | Some (k, t) \<Rightarrow>
                 (case skip_ws t of
                    [] \<Rightarrow> None
                  | c # r' \<Rightarrow>
                      if c \<noteq> CHR '':'' then None
                      else
                        (case parse_value n (skip_ws r') of
                           None \<Rightarrow> None
                         | Some (v, u) \<Rightarrow>
                             (case skip_ws u of
                                [] \<Rightarrow> None
                              | c' # r'' \<Rightarrow>
                                  if c' = CHR ''}'' then Some ([(k, v)], r'')
                                  else if c' = CHR '','' then
                                    map_option (\<lambda>(ms, w). ((k, v) # ms, w))
                                      (parse_members n (skip_ws r''))
                                  else None)))))"

text \<open>
  \<^verbatim>\<open>JSON.parse(text)\<close>: one value, with white space around it, and nothing else.
  Every nested call consumes a character within two steps, so twice the length of the
  text (and two) bounds the nesting.
\<close>

definition JSON_parse :: "string \<Rightarrow> exn + json" where
  "JSON_parse text =
     (case parse_value (2 * length text + 2) (skip_ws text) of
        None \<Rightarrow> Inl SyntaxError
      | Some (v, r) \<Rightarrow> if skip_ws r = [] then Inr v else Inl SyntaxError)"

text \<open>
  A JavaScript value as the library meets one when it reads the store: \<^verbatim>\<open>undefined\<close>
  is \<open>None\<close>, everything else is what \<open>JSON_parse\<close> returned.
\<close>

type_synonym jsval = "json option"

text \<open>\<^verbatim>\<open>ToBoolean\<close>, as \<^verbatim>\<open>!!v\<close> and \<^verbatim>\<open>v ? a : b\<close> apply it.\<close>

fun truthy :: "jsval \<Rightarrow> bool" where
  "truthy None = False"
| "truthy (Some JNull) = False"
| "truthy (Some (JBool b)) = b"
| "truthy (Some (JNumber q)) = ToBoolean_number (to_double q)"
| "truthy (Some (JString s)) = (s \<noteq> [])"
| "truthy (Some (JArray vs)) = True"
| "truthy (Some (JObject ms)) = True"

text \<open>
  The property read \<^verbatim>\<open>v.id\<close>: a \<^verbatim>\<open>TypeError\<close> on \<^verbatim>\<open>undefined\<close> and \<^verbatim>\<open>null\<close>; on an object
  the member of that name (the last one, when the text repeated the key); \<^verbatim>\<open>undefined\<close>
  on every other value.
\<close>

fun get_id :: "jsval \<Rightarrow> exn + jsval" where
  "get_id None = Inl TypeError"
| "get_id (Some JNull) = Inl TypeError"
| "get_id (Some (JObject ms)) = Inr (map_of (rev ms) ''id'')"
| "get_id (Some v) = Inr None"

subsection \<open>Arguments, user functions, and the world outside the object\<close>

text \<open>
  A user function (a variant's action or an event handler) is opaque to the library:
  it has a name, and a call of it either returns or throws. Every call is recorded, with
  what was passed, in the world's \<open>calls\<close>. User functions that reach back into the
  experiment or the store are outside the model.
\<close>

datatype fn = Fn (fn_name: nat) (fn_throws: bool)

text \<open>
  The values a caller can pass where the library inspects the argument: \<open>Obj w\<close> is an
  object whose \<^verbatim>\<open>weight\<close> property is the number \<open>w\<close> (\<open>None\<close>: no such property, or
  \<^verbatim>\<open>undefined\<close>); \<open>Other\<close> is any value that is neither a string, an object nor a
  function. A weight that is not a number is outside the model.
\<close>

datatype arg = Undefined | Null | Str string | Obj "number option" | Fun fn | Other

text \<open>\<^verbatim>\<open>typeof a === 'object'\<close> and \<^verbatim>\<open>typeof a === 'string'\<close>.\<close>

fun typeof_object :: "arg \<Rightarrow> bool" where
  "typeof_object Null = True"
| "typeof_object (Obj w) = True"
| "typeof_object a = False"

fun typeof_string :: "arg \<Rightarrow> bool" where
  "typeof_string (Str s) = True"
| "typeof_string a = False"

text \<open>What a user function was called with: the assignment (handlers) or the arguments
  of \<^verbatim>\<open>start\<close>, as one array (actions).\<close>

datatype passed = Assignment jsval | Arguments "json list"

datatype invocation = Invoked nat passed

text \<open>
  The world: the store (\<open>None\<close> when \<^verbatim>\<open>window.localStorage\<close> is undefined), the clock
  that \<^verbatim>\<open>new Date()\<close> reads (milliseconds), the randomness source as the sequence of its
  draws with the number of draws taken so far, and the record of the user functions called.
\<close>

record world =
  localStorage :: "(string \<rightharpoonup> string) option"
  now :: int
  random_source :: "nat \<Rightarrow> number"
  random_calls :: nat
  calls :: "invocation list"

definition random :: "world \<Rightarrow> number \<times> world" where
  "random w = (random_source w (random_calls w), w\<lparr>random_calls := Suc (random_calls w)\<rparr>)"

text \<open>\<^verbatim>\<open>f.call(this, a)\<close>: a \<^verbatim>\<open>TypeError\<close> unless \<open>f\<close> is a function.\<close>

fun call :: "arg \<Rightarrow> passed \<Rightarrow> world \<Rightarrow> (exn + unit) \<times> world" where
  "call (Fun f) a w =
     (let w' = w\<lparr>calls := calls w @ [Invoked (fn_name f) a]\<rparr>
      in if fn_throws f then (Inl (Thrown (fn_name f)), w') else (Inr (), w'))"
| "call f a w = (Inl TypeError, w)"

section \<open>The class \<^verbatim>\<open>Conical\<close>\<close>

record variant =
  variant_id :: string  \<comment> \<open>\<^verbatim>\<open>id\<close>\<close>
  weight :: number  \<comment> \<open>\<^verbatim>\<open>options.weight\<close>\<close>
  callback :: arg

text \<open>
  The two options are used as numbers only (\<^verbatim>\<open>Math.max\<close> and \<^verbatim>\<open>>\<close> apply \<^verbatim>\<open>ToNumber\<close>),
  so each is kept as the number it is used as: \<^verbatim>\<open>NaN\<close> for \<^verbatim>\<open>undefined\<close>, and so for an
  expiry that is not configured; 0 for \<^verbatim>\<open>null\<close>; its time value in milliseconds for a
  \<^verbatim>\<open>Date\<close>.
\<close>

record experiment_options =
  sampleSize :: number
  expiry :: number

text \<open>
  The fields \<^verbatim>\<open>id\<close>, \<^verbatim>\<open>min\<close> and \<^verbatim>\<open>max\<close> are \<open>exp_id\<close>, \<open>min_id\<close> and \<open>max_id\<close> here.
  \<^verbatim>\<open>handlers[event] || []\<close> is the function \<open>handlers\<close> at \<open>event\<close>, with \<open>[]\<close> for an
  event nobody registered for. The table is an \<^verbatim>\<open>Array\<close> in the code, so an event named
  like a property that every array has (\<^verbatim>\<open>length\<close>, \<^verbatim>\<open>push\<close>, \<^verbatim>\<open>constructor\<close> and the
  like) finds that property there, not a list of handlers; such event names are outside
  the model. \<^verbatim>\<open>options.random\<close> is the world's randomness source.
\<close>

record conical =
  exp_id :: string
  description :: arg
  options :: experiment_options
  uidKey :: string
  storagePrefix :: string
  experimentKey :: string
  min_id :: int
  max_id :: int
  hasConverted :: bool
  variants :: "variant list"
  handlers :: "string \<Rightarrow> arg list"

text \<open>What \<^verbatim>\<open>setVariant\<close> receives: a registered variant or an object with an \<^verbatim>\<open>id\<close> only.\<close>

datatype chosen = Registered variant | Id_only string

fun chosen_id :: "chosen \<Rightarrow> string" where
  "chosen_id (Registered v) = variant_id v"
| "chosen_id (Id_only s) = s"

subsection \<open>The store\<close>

definition container :: "world \<Rightarrow> exn + (string \<rightharpoonup> string)" where
  "container w =
     (case localStorage w of
        None \<Rightarrow> Inl (Error ''localStorage is unavailable in this environment'')
      | Some st \<Rightarrow> Inr st)"

definition setId :: "conical \<Rightarrow> number \<Rightarrow> world \<Rightarrow> (exn + unit) \<times> world" where
  "setId e n w =
     (case container w of
        Inl x \<Rightarrow> (Inl x, w)
      | Inr st \<Rightarrow> (Inr (), w\<lparr>localStorage := Some (st(uidKey e \<mapsto> ToString_number n))\<rparr>))"

text \<open>\<open>None\<close> is \<^verbatim>\<open>NaN\<close>.\<close>

definition getId :: "conical \<Rightarrow> world \<Rightarrow> exn + int option" where
  "getId e w =
     (case container w of
        Inl x \<Rightarrow> Inl x
      | Inr st \<Rightarrow> Inr (parseInt (ToString_item (st (uidKey e)))))"

definition setVariant :: "conical \<Rightarrow> chosen \<Rightarrow> world \<Rightarrow> (exn + unit) \<times> world" where
  "setVariant e v w =
     (case container w of
        Inl x \<Rightarrow> (Inl x, w)
      | Inr st \<Rightarrow>
          (Inr (), w\<lparr>localStorage := Some (st(experimentKey e \<mapsto> JSON_stringify_id (chosen_id v)))\<rparr>))"

text \<open>\<^verbatim>\<open>variant ? JSON.parse(variant) : undefined\<close>: the empty string is falsy too.\<close>

definition getVariant :: "conical \<Rightarrow> world \<Rightarrow> exn + jsval" where
  "getVariant e w =
     (case container w of
        Inl x \<Rightarrow> Inl x
      | Inr st \<Rightarrow>
          (case st (experimentKey e) of
             None \<Rightarrow> Inr None
           | Some s \<Rightarrow>
               if s = [] then Inr None
               else (case JSON_parse s of Inl x \<Rightarrow> Inl x | Inr v \<Rightarrow> Inr (Some v))))"

definition clearVariant :: "conical \<Rightarrow> world \<Rightarrow> (exn + unit) \<times> world" where
  "clearVariant e w =
     (case container w of
        Inl x \<Rightarrow> (Inl x, w)
      | Inr st \<Rightarrow> (Inr (), w\<lparr>localStorage := Some (st(experimentKey e := None))\<rparr>))"

subsection \<open>Identity\<close>

text \<open>\<^verbatim>\<open>!!this.getId()\<close>: \<^verbatim>\<open>NaN\<close> and \<open>0\<close> are falsy.\<close>

definition hasId :: "conical \<Rightarrow> world \<Rightarrow> exn + bool" where
  "hasId e w =
     (case getId e w of
        Inl x \<Rightarrow> Inl x
      | Inr n \<Rightarrow> Inr (case n of None \<Rightarrow> False | Some i \<Rightarrow> i \<noteq> 0))"

text \<open>\<^verbatim>\<open>Math.floor(this.options.random() * max + min)\<close>, stored and returned.\<close>

definition generateRandomId :: "conical \<Rightarrow> int \<Rightarrow> int \<Rightarrow> world \<Rightarrow> (exn + number) \<times> world" where
  "generateRandomId e mn mx w =
     (let (r, w1) = random w;
          i = Math_floor (Number_add (Number_mul r (Fin (of_int mx))) (Fin (of_int mn)))
      in case setId e i w1 of
           (Inl x, w2) \<Rightarrow> (Inl x, w2)
         | (Inr u, w2) \<Rightarrow> (Inr i, w2))"

definition assignId :: "conical \<Rightarrow> world \<Rightarrow> (exn + number) \<times> world" where
  "assignId e w =
     (case hasId e w of
        Inl x \<Rightarrow> (Inl x, w)
      | Inr True \<Rightarrow> (case getId e w of Inl x \<Rightarrow> (Inl x, w) | Inr n \<Rightarrow> (Inr (parsed_number n), w))
      | Inr False \<Rightarrow> generateRandomId e (min_id e) (max_id e) w)"

subsection \<open>Construction and registration\<close>

text \<open>
  The caller's options object: each property may be missing (\<open>None\<close>), and
  \<^verbatim>\<open>Object.assign({}, { sampleSize: 1, random: Math.random }, options)\<close> fills in the
  sample size then. A property that is there is copied whatever it is, an explicit
  \<^verbatim>\<open>undefined\<close> included, and is given here as the number it is used as.
\<close>

record options_arg =
  sampleSize_arg :: "number option"
  expiry_arg :: "number option"

text \<open>The guard \<^verbatim>\<open>id === 'undefined' || typeof id !== 'string'\<close> of the constructor,
  of \<^verbatim>\<open>addVariant\<close> and of \<^verbatim>\<open>on\<close>.\<close>

definition missing_id :: "arg \<Rightarrow> bool" where
  "missing_id i \<longleftrightarrow> i = Str ''undefined'' \<or> \<not> typeof_string i"

text \<open>The fields as the constructor body sets them, before it calls \<^verbatim>\<open>this.assignId()\<close>.\<close>

definition initial :: "string \<Rightarrow> arg \<Rightarrow> options_arg \<Rightarrow> conical" where
  "initial s d opts =
     \<lparr>exp_id = s,
      description = d,
      options = \<lparr>sampleSize = (case sampleSize_arg opts of None \<Rightarrow> Fin 1 | Some x \<Rightarrow> x),
                 expiry = (case expiry_arg opts of None \<Rightarrow> NaN | Some x \<Rightarrow> x)\<rparr>,
      uidKey = ''conical_uid'',
      storagePrefix = ''experiment_'',
      experimentKey = ''experiment_'' @ s,
      min_id = 0,
      max_id = 100000,
      hasConverted = False,
      variants = [],
      handlers = (\<lambda>event. [])\<rparr>"

definition Conical :: "arg \<Rightarrow> arg \<Rightarrow> options_arg \<Rightarrow> world \<Rightarrow> (exn + conical) \<times> world" where
  "Conical i d opts w =
     (case i of
        Str s \<Rightarrow>
          if missing_id i then (Inl (Error ''experiment id is required''), w)
          else
            (let e = initial s d opts
             in case assignId e w of
                  (Inl x, w') \<Rightarrow> (Inl x, w')
                | (Inr n, w') \<Rightarrow> (Inr e, w'))
      | _ \<Rightarrow> (Inl (Error ''experiment id is required''), w))"

text \<open>\<^verbatim>\<open>options.weight || 0.5\<close>: a missing weight, the weight \<open>0\<close> and \<^verbatim>\<open>NaN\<close> are falsy.\<close>

definition weight_or_default :: "number option \<Rightarrow> number" where
  "weight_or_default w =
     (case w of None \<Rightarrow> Fin (1 / 2) | Some x \<Rightarrow> if ToBoolean_number x then x else Fin (1 / 2))"

definition addVariant :: "arg \<Rightarrow> arg \<Rightarrow> arg \<Rightarrow> conical \<Rightarrow> exn + conical" where
  "addVariant i opts cb e =
     (case i of
        Str s \<Rightarrow>
          if missing_id i then Inl (Error ''variant id is required'')
          else
            (let (opts', cb') = (if \<not> typeof_object opts then (Obj None, opts) else (opts, cb))
             in case opts' of
                  Obj w \<Rightarrow>
                    Inr (e\<lparr>variants := variants e @
                             [\<lparr>variant_id = s, weight = weight_or_default w, callback = cb'\<rparr>]\<rparr>)
                | _ \<Rightarrow> Inl TypeError)
      | _ \<Rightarrow> Inl (Error ''variant id is required''))"

definition on :: "arg \<Rightarrow> arg \<Rightarrow> conical \<Rightarrow> exn + conical" where
  "on event cb e =
     (case event of
        Str s \<Rightarrow>
          if missing_id event then Inl (Error ''handler event name is required'')
          else Inr (e\<lparr>handlers := (handlers e)(s := handlers e s @ [cb])\<rparr>)
      | _ \<Rightarrow> Inl (Error ''handler event name is required''))"

subsection \<open>Events\<close>

fun call_all :: "arg list \<Rightarrow> passed \<Rightarrow> world \<Rightarrow> (exn + unit) \<times> world" where
  "call_all [] a w = (Inr (), w)"
| "call_all (f # fs) a w =
     (case call f a w of
        (Inl x, w') \<Rightarrow> (Inl x, w')
      | (Inr u, w') \<Rightarrow> call_all fs a w')"

definition trigger :: "conical \<Rightarrow> string \<Rightarrow> jsval \<Rightarrow> world \<Rightarrow> (exn + unit) \<times> world" where
  "trigger e event v w = call_all (handlers e event) (Assignment v) w"

subsection \<open>Segmentation\<close>

text \<open>\<^verbatim>\<open>new Date() > this.options.expiry\<close>: false when no expiry is configured.\<close>

definition hasExpired :: "conical \<Rightarrow> world \<Rightarrow> bool" where
  "hasExpired e w = Number_lt (expiry (options e)) (Fin (of_int (now w)))"

definition isParticipating :: "conical \<Rightarrow> world \<Rightarrow> exn + bool" where
  "isParticipating e w = (case getVariant e w of Inl x \<Rightarrow> Inl x | Inr v \<Rightarrow> Inr (truthy v))"

definition canParticipate :: "conical \<Rightarrow> world \<Rightarrow> exn + bool" where
  "canParticipate e w =
     (let sampleSize = Math_min (Math_max (sampleSize (options e)) (Fin 0)) (Fin 1)
      in case getId e w of
           Inl x \<Rightarrow> Inl x
         | Inr n \<Rightarrow> Inr (Number_lt (parsed_number n) (Number_mul (Fin (of_int (max_id e))) sampleSize)))"

text \<open>The loop of \<^verbatim>\<open>allocateVariant\<close>, from a cumulative weight and the variants left.\<close>

fun allocateVariant_loop :: "number \<Rightarrow> number \<Rightarrow> variant list \<Rightarrow> chosen" where
  "allocateVariant_loop randomVariant cumerlativeWeight [] = Id_only ''no-chosen-variant''"
| "allocateVariant_loop randomVariant cumerlativeWeight (v # vs) =
     (if Number_ge (Number_add cumerlativeWeight (weight v)) randomVariant then Registered v
      else allocateVariant_loop randomVariant (Number_add cumerlativeWeight (weight v)) vs)"

definition allocateVariant :: "conical \<Rightarrow> world \<Rightarrow> chosen \<times> world" where
  "allocateVariant e w =
     (let (randomVariant, w') = random w
      in (allocateVariant_loop randomVariant (Fin 0) (variants e), w'))"

definition participating :: "conical \<Rightarrow> world \<Rightarrow> (exn + unit) \<times> world" where
  "participating e w = (let (allocatedVariant, w') = allocateVariant e w in setVariant e allocatedVariant w')"

definition notParticipating :: "conical \<Rightarrow> world \<Rightarrow> (exn + unit) \<times> world" where
  "notParticipating e w = setVariant e (Id_only ''not-participating'') w"

definition segment :: "conical \<Rightarrow> world \<Rightarrow> (exn + unit) \<times> world" where
  "segment e w =
     (if hasExpired e w then
        (case clearVariant e w of
           (Inl x, w') \<Rightarrow> (Inl x, w')
         | (Inr u, w') \<Rightarrow> (Inl (Error ''this experiment has expired''), w'))
      else if length (variants e) \<le> 0 then (Inl (Error ''this experiment has no variants''), w)
      else
        (case isParticipating e w of
           Inl x \<Rightarrow> (Inl x, w)
         | Inr True \<Rightarrow> (Inr (), w)
         | Inr False \<Rightarrow>
             (case canParticipate e w of
                Inl x \<Rightarrow> (Inl x, w)
              | Inr True \<Rightarrow> participating e w
              | Inr False \<Rightarrow> notParticipating e w)))"

subsection \<open>Start and completion\<close>

text \<open>The loop of \<^verbatim>\<open>start\<close> over the variants left; \<^verbatim>\<open>chosenVariant.id\<close> is read in every round.\<close>

fun start_loop :: "conical \<Rightarrow> jsval \<Rightarrow> json list \<Rightarrow> variant list \<Rightarrow> world \<Rightarrow> (exn + unit) \<times> world" where
  "start_loop e chosenVariant args [] w = (Inr (), w)"
| "start_loop e chosenVariant args (v # vs) w =
     (case get_id chosenVariant of
        Inl x \<Rightarrow> (Inl x, w)
      | Inr i \<Rightarrow>
          if i = Some (JString (variant_id v)) then
            (case trigger e ''start'' chosenVariant w of
               (Inl x, w1) \<Rightarrow> (Inl x, w1)
             | (Inr u, w1) \<Rightarrow>
                 (case call (callback v) (Arguments args) w1 of
                    (Inl x, w2) \<Rightarrow> (Inl x, w2)
                  | (Inr u', w2) \<Rightarrow> start_loop e chosenVariant args vs w2))
          else start_loop e chosenVariant args vs w)"

definition start :: "conical \<Rightarrow> json list \<Rightarrow> world \<Rightarrow> (exn + unit) \<times> world" where
  "start e args w =
     (case getVariant e w of
        Inl x \<Rightarrow> (Inl x, w)
      | Inr chosenVariant \<Rightarrow> start_loop e chosenVariant args (variants e) w)"

text \<open>The method \<^verbatim>\<open>complete\<close>; the name \<open>complete\<close> is taken by the library of analysis.\<close>

definition complete_experiment :: "conical \<Rightarrow> world \<Rightarrow> (exn + unit) \<times> conical \<times> world" where
  "complete_experiment e w =
     (if hasConverted e then (Inl (Error ''this experiment is already complete''), e, w)
      else
        (case getVariant e w of
           Inl x \<Rightarrow> (Inl x, e, w)
         | Inr chosenVariant \<Rightarrow>
             (let e' = e\<lparr>hasConverted := True\<rparr>;
                  (r, w') = trigger e' ''complete'' chosenVariant w
              in (r, e', w'))))"

section \<open>Specification-side notions and test fixtures\<close>

text \<open>
  The fields the constructor sets once and no method assigns again, with the values the
  constructor gives them.
\<close>

definition constructed :: "conical \<Rightarrow> bool" where
  "constructed e \<longleftrightarrow>
     uidKey e = ''conical_uid'' \<and> storagePrefix e = ''experiment_'' \<and>
     experimentKey e = storagePrefix e @ exp_id e \<and> min_id e = 0 \<and> max_id e = 100000"

text \<open>
  The specification's weighted draw: the cumulative weight of the variant at position \<open>i\<close>
  is the sum of the weights of it and all earlier variants, added up from 0 in
  registration order with the addition of the language; the draw \<open>r\<close> selects the first
  position, in registration order, whose cumulative weight is \<^verbatim>\<open>>=\<close> \<open>r\<close>.
\<close>

definition cumulative_weight :: "variant list \<Rightarrow> nat \<Rightarrow> number" where
  "cumulative_weight vs i = foldl Number_add (Fin 0) (map weight (take (Suc i) vs))"

definition first_reaching :: "number \<Rightarrow> variant list \<Rightarrow> nat option" where
  "first_reaching r vs = List.find (\<lambda>i. Number_ge (cumulative_weight vs i) r) [0..<length vs]"

text \<open>The assignment as the specification writes it: the object \<^verbatim>\<open>{ variantId: s }\<close>.\<close>

definition spec_assignment :: "string \<Rightarrow> json" where
  "spec_assignment s = JObject [(''variantId'', JString s)]"

text \<open>The specification's \<open>clamp(x, lo, hi)\<close>, on numbers; it leaves \<^verbatim>\<open>NaN\<close> as it is.\<close>

definition clamp :: "number \<Rightarrow> number \<Rightarrow> number \<Rightarrow> number" where
  "clamp x lo hi = (if Number_lt x lo then lo else if Number_lt hi x then hi else x)"

text \<open>
  The fixtures of \<^verbatim>\<open>test/conical.js\<close>: \<^verbatim>\<open>Math.random\<close> stubbed to one value, an empty
  store, the experiment \<^verbatim>\<open>new Conical('test', 'this is a test experiment')\<close> and the
  world after its construction, and the two variants of the first segmentation test.
\<close>

definition stub_draw :: number where
  "stub_draw = to_double (34702089498750865 / 100000000000000000)"

definition fresh_world :: world where
  "fresh_world =
     \<lparr>localStorage = Some Map.empty, now = 1000, random_source = (\<lambda>n. stub_draw),
      random_calls = 0, calls = []\<rparr>"

definition no_options :: options_arg where
  "no_options = \<lparr>sampleSize_arg = None, expiry_arg = None\<rparr>"

definition test_experiment :: conical where
  "test_experiment =
     \<lparr>exp_id = ''test'', description = Str ''this is a test experiment'',
      options = \<lparr>sampleSize = Fin 1, expiry = NaN\<rparr>, uidKey = ''conical_uid'',
      storagePrefix = ''experiment_'', experimentKey = ''experiment_test'', min_id = 0,
      max_id = 100000, hasConverted = False, variants = [], handlers = (\<lambda>event. [])\<rparr>"

definition test_store :: "string \<rightharpoonup> string" where
  "test_store = [''conical_uid'' \<mapsto> ''34702'']"

definition test_world :: world where
  "test_world = fresh_world\<lparr>localStorage := Some test_store, random_calls := 1\<rparr>"

definition variant_A :: variant where
  "variant_A = \<lparr>variant_id = ''variant-A'', weight = to_double (3 / 10), callback = Fun (Fn 1 False)\<rparr>"

definition variant_B :: variant where
  "variant_B = \<lparr>variant_id = ''variant-B'', weight = to_double (7 / 10), callback = Fun (Fn 2 False)\<rparr>"

text \<open>Further fixtures: the world after the first segmentation test, its experiment, the
  experiment of the expiry test, and the experiment of the sample size test.\<close>

definition segmented_world :: world where
  "segmented_world =
     test_world\<lparr>random_calls := 2,
       localStorage := Some (test_store(''experiment_test'' \<mapsto> JSON_stringify_id ''variant-B''))\<rparr>"

definition test_experiment_AB :: conical where
  "test_experiment_AB = test_experiment\<lparr>variants := [variant_A, variant_B]\<rparr>"

definition expired_experiment :: conical where
  "expired_experiment = test_experiment_AB\<lparr>options := \<lparr>sampleSize = Fin 1, expiry = Fin 1\<rparr>\<rparr>"

definition sampled_experiment :: conical where
  "sampled_experiment =
     test_experiment\<lparr>options := \<lparr>sampleSize = to_double (2 / 10), expiry = NaN\<rparr>,
       variants := [variant_A]\<rparr>"

definition first_visit_world :: world where
  "first_visit_world =
     fresh_world\<lparr>random_source := (\<lambda>n. if n = 0 then to_double (1 / 1000000) else Fin (1 / 2))\<rparr>"

definition zero_store :: "string \<rightharpoonup> string" where
  "zero_store = [''conical_uid'' \<mapsto> ''0'']"

definition zero_world :: world where
  "zero_world = first_visit_world\<lparr>localStorage := Some zero_store, random_calls := 1\<rparr>"

definition regenerated_world :: world where
  "regenerated_world =
     first_visit_world\<lparr>localStorage := Some [''conical_uid'' \<mapsto> ''50000''], random_calls := 2\<rparr>"

text \<open>
  The life of one instance: any sequence of calls of its public methods, with anything
  happening to the world in between (\<open>Elsewhere\<close>: other code, other experiments, time
  passing). A caller may catch an exception and go on, so a run continues after a failed
  call, from the state the call left.
\<close>

datatype step =
  AddVariant arg arg arg
  | On arg arg
  | Segment
  | Start "json list"
  | Complete
  | Elsewhere "world \<Rightarrow> world"

fun invoke :: "step \<Rightarrow> conical \<Rightarrow> world \<Rightarrow> (exn + unit) \<times> conical \<times> world" where
  "invoke (AddVariant i opts cb) e w =
     (case addVariant i opts cb e of Inl x \<Rightarrow> (Inl x, e, w) | Inr e' \<Rightarrow> (Inr (), e', w))"
| "invoke (On event cb) e w =
     (case on event cb e of Inl x \<Rightarrow> (Inl x, e, w) | Inr e' \<Rightarrow> (Inr (), e', w))"
| "invoke Segment e w = (case segment e w of (r, w') \<Rightarrow> (r, e, w'))"
| "invoke (Start args) e w = (case start e args w of (r, w') \<Rightarrow> (r, e, w'))"
| "invoke Complete e w = complete_experiment e w"
| "invoke (Elsewhere f) e w = (Inr (), e, f w)"

text \<open>The outcomes of the calls of a run, in order.\<close>

fun run :: "step list \<Rightarrow> conical \<Rightarrow> world \<Rightarrow> (exn + unit) list" where
  "run [] e w = []"
| "run (s # ss) e w = (case invoke s e w of (r, e', w') \<Rightarrow> r # run ss e' w')"

text \<open>The number of calls of \<^verbatim>\<open>complete()\<close> in a run that returned without an exception.\<close>

definition completions :: "step list \<Rightarrow> conical \<Rightarrow> world \<Rightarrow> nat" where
  "completions ss e w = length (filter (\<lambda>(s, r). s = Complete \<and> r = Inr ()) (zip ss (run ss e w)))"

definition completing_experiment :: conical where
  "completing_experiment =
     test_experiment\<lparr>handlers := (\<lambda>event. if event = ''complete'' then [Fun (Fn 7 False)] else [])\<rparr>"

section \<open>Facts about the platform model\<close>

subsection \<open>Rounding to a double\<close>

lemma powi_nat: "0 \<le> k \<Longrightarrow> (2::rat) ^ nat k = 2 powi k"
  by (simp add: power_int_def)

lemma powi_two_pos: "0 < (2::rat) powi k"
  by (simp add: zero_less_power_int)

lemma powi_two_less_cancel: "(2::rat) powi m < 2 powi n \<Longrightarrow> m < n"
proof (rule ccontr)
  assume "2 powi m < (2::rat) powi n" "\<not> m < n"
  then have "(2::rat) powi n \<le> 2 powi m"
    by (intro power_int_increasing) simp_all
  with \<open>2 powi m < (2::rat) powi n\<close> show False
    by simp
qed

lemma binade_bounds:
  assumes "0 < q"
  shows "2 powi (binade q) \<le> q \<and> q < 2 powi (binade q + 1)"
proof -
  obtain a b where ab: "quotient_of q = (a, b)"
    by (cases "quotient_of q") auto
  then have b: "0 < b" and q: "q = of_int a / of_int b"
    by (auto dest: quotient_of_denom_pos quotient_of_div)
  with assms have a: "0 < a"
    by (simp add: zero_less_divide_iff)
  let ?la = "bitlen a" and ?lb = "bitlen b"
  let ?A = "of_int a :: rat" and ?B = "of_int b :: rat"
  have pos: "1 \<le> ?la" "1 \<le> ?lb"
    using a b bitlen_eq_zero_iff [of a] bitlen_eq_zero_iff [of b] bitlen_nonneg [of a] bitlen_nonneg [of b]
    by linarith+
  from bitlen_bounds [OF a] bitlen_bounds [OF b]
  have "2 ^ nat (?la - 1) \<le> a" "a < 2 ^ nat ?la" "2 ^ nat (?lb - 1) \<le> b" "b < 2 ^ nat ?lb"
    by auto
  then have "(2::rat) ^ nat (?la - 1) \<le> ?A" "?A < 2 ^ nat ?la" "(2::rat) ^ nat (?lb - 1) \<le> ?B" "?B < 2 ^ nat ?lb"
    by (metis of_int_le_iff of_int_numeral of_int_power, metis of_int_less_iff of_int_numeral of_int_power,
        metis of_int_le_iff of_int_numeral of_int_power, metis of_int_less_iff of_int_numeral of_int_power)
  with pos have A: "2 powi (?la - 1) \<le> ?A" "?A < 2 powi ?la" and B: "2 powi (?lb - 1) \<le> ?B" "?B < 2 powi ?lb"
    by (simp_all add: powi_nat)
  have Bpos: "0 < ?B"
    using b by simp
  have "q < 2 powi ?la / ?B"
    unfolding q using A(2) Bpos by (simp add: divide_strict_right_mono)
  also have "\<dots> \<le> 2 powi ?la / 2 powi (?lb - 1)"
    using B(1) b by (intro divide_left_mono) (simp_all add: powi_two_pos less_imp_le mult_pos_pos)
  also have "\<dots> = 2 powi (?la - ?lb + 1)"
    by (simp add: power_int_diff [symmetric] algebra_simps)
  finally have up: "q < 2 powi (?la - ?lb + 1)" .
  have "2 powi (?la - ?lb - 1) = 2 powi (?la - 1) / (2::rat) powi ?lb"
    by (simp add: power_int_diff [symmetric] algebra_simps)
  also have "\<dots> < 2 powi (?la - 1) / ?B"
    using B(2) Bpos by (intro divide_strict_left_mono) (simp_all add: powi_two_pos)
  also have "\<dots> \<le> q"
    unfolding q using A(1) Bpos by (simp add: divide_right_mono)
  finally have lo: "2 powi (?la - ?lb - 1) < q" .
  have e: "binade q = (if 2 powi (?la - ?lb) \<le> q then ?la - ?lb else ?la - ?lb - 1)"
    by (simp add: binade_def ab Let_def)
  show ?thesis
  proof (cases "2 powi (?la - ?lb) \<le> q")
    case True
    with e up show ?thesis by simp
  next
    case False
    with e lo show ?thesis by (simp add: not_le less_imp_le)
  qed
qed

lemma binade_unique:
  assumes "0 < q" "2 powi e \<le> q" "q < 2 powi (e + 1)"
  shows "binade q = e"
proof -
  from binade_bounds [OF assms(1)] have b: "2 powi (binade q) \<le> q" "q < 2 powi (binade q + 1)"
    by auto
  from assms(2) b(2) have "(2::rat) powi e < 2 powi (binade q + 1)"
    by simp
  then have 1: "e < binade q + 1"
    by (rule powi_two_less_cancel)
  from b(1) assms(3) have "(2::rat) powi (binade q) < 2 powi (e + 1)"
    by simp
  then have "binade q < e + 1"
    by (rule powi_two_less_cancel)
  with 1 show ?thesis
    by simp
qed

lemma round_half_even_nearest:
  "of_int k - 1 / 2 < x \<Longrightarrow> x < of_int k + 1 / 2 \<Longrightarrow> round_half_even x = k"
proof -
  assume a: "of_int k - 1 / 2 < x" "x < of_int k + 1 / 2"
  show ?thesis
  proof (cases "x < of_int k")
    case True
    with a have "\<lfloor>x\<rfloor> = k - 1"
      by (simp add: floor_eq_iff; linarith)
    with a True show ?thesis
      by (simp add: round_half_even_def Let_def)
  next
    case False
    with a have "\<lfloor>x\<rfloor> = k"
      by (simp add: floor_eq_iff; linarith)
    with a False show ?thesis
      by (simp add: round_half_even_def Let_def)
  qed
qed

lemma round_half_even_tie:
  "x = of_int k + 1 / 2 \<Longrightarrow> round_half_even x = (if even k then k else k + 1)"
proof -
  assume x: "x = of_int k + 1 / 2"
  then have "\<lfloor>x\<rfloor> = k"
    by (simp add: floor_eq_iff)
  with x show ?thesis
    by (simp add: round_half_even_def Let_def)
qed

lemma to_double_normal:
  assumes "0 < q" "2 powi e \<le> q" "q < 2 powi (e + 1)" "- 1022 \<le> e"
    and "round_half_even (q / 2 powi (e - 52)) = k"
    and "of_int k * 2 powi (e - 52) < (2::rat) powi 1024"
  shows "to_double q = Fin (of_int k * 2 powi (e - 52))"
proof -
  have b: "binade \<bar>q\<bar> = e"
    using assms(1-3) by (simp add: binade_unique)
  have "0 \<le> q / 2 powi (e - 52)"
    using assms(1) by (simp add: powi_two_pos less_imp_le)
  then have "0 \<le> k"
    using assms(5) by (auto simp: round_half_even_def Let_def split: if_splits)
  then have "0 \<le> of_int k * (2::rat) powi (e - 52)"
    by (simp add: powi_two_pos less_imp_le)
  moreover have "- ((2::rat) powi 1024) < 0"
    by (simp add: powi_two_pos)
  ultimately have "- ((2::rat) powi 1024) < of_int k * 2 powi (e - 52)"
    by linarith
  with assms(1,4,5,6) b show ?thesis
    by (simp add: to_double_def Let_def max_def not_le)
qed


lemma to_double_nearest:
  assumes "0 < q" "2 powi e \<le> q" "q < 2 powi (e + 1)" "- 1022 \<le> e" "e \<le> 1022"
    and "(of_int k - 1 / 2) * 2 powi (e - 52) < q" "q < (of_int k + 1 / 2) * 2 powi (e - 52)"
    and "k \<le> 2 ^ 53"
  shows "to_double q = Fin (of_int k * 2 powi (e - 52))"
proof -
  let ?u = "(2::rat) powi (e - 52)"
  have u: "0 < ?u"
    by (rule powi_two_pos)
  from assms(6,7) u have "of_int k - 1 / 2 < q / ?u" "q / ?u < of_int k + 1 / 2"
    by (simp_all add: pos_less_divide_eq pos_divide_less_eq)
  then have r: "round_half_even (q / ?u) = k"
    by (rule round_half_even_nearest)
  have "of_int k * ?u \<le> 2 ^ 53 * ?u"
    using assms(8) u by (intro mult_right_mono) (simp_all add: less_imp_le of_int_le_numeral_power_cancel_iff)
  also have "\<dots> = 2 powi (e + 1)"
    using power_int_add [of "2::rat" 53 "e - 52"] by (simp add: add.commute)
  also have "\<dots> < 2 powi 1024"
    using assms(5) by (intro power_int_strict_increasing) simp_all
  finally show ?thesis
    using assms(1-4) r by (intro to_double_normal) simp_all
qed

lemma to_double_tie:
  assumes "0 < q" "2 powi e \<le> q" "q < 2 powi (e + 1)" "- 1022 \<le> e" "e \<le> 1022"
    and "q = (of_int k + 1 / 2) * 2 powi (e - 52)" "k < 2 ^ 53"
  shows "to_double q = Fin (of_int (if even k then k else k + 1) * 2 powi (e - 52))"
proof -
  let ?u = "(2::rat) powi (e - 52)"
  let ?k = "if even k then k else k + 1"
  have u: "0 < ?u"
    by (rule powi_two_pos)
  from assms(6) u have "q / ?u = of_int k + 1 / 2"
    by simp
  then have r: "round_half_even (q / ?u) = ?k"
    by (rule round_half_even_tie)
  have "?k \<le> 2 ^ 53"
    using assms(7) by simp
  then have "of_int ?k * ?u \<le> 2 ^ 53 * ?u"
    using u by (intro mult_right_mono) (simp_all add: less_imp_le of_int_le_numeral_power_cancel_iff)
  also have "\<dots> = 2 powi (e + 1)"
    using power_int_add [of "2::rat" 53 "e - 52"] by (simp add: add.commute)
  also have "\<dots> < 2 powi 1024"
    using assms(5) by (intro power_int_strict_increasing) simp_all
  finally show ?thesis
    using assms(1-4) r by (intro to_double_normal) simp_all
qed

lemma to_double_zero: "to_double 0 = Fin 0"
  by (simp add: to_double_def)

lemma round_half_even_of_int: "round_half_even (of_int k) = k"
  by (simp add: round_half_even_def)

lemma round_half_even_nonneg: "0 \<le> x \<Longrightarrow> 0 \<le> round_half_even x"
  by (simp add: round_half_even_def Let_def)

lemma round_half_even_nonpos:
  assumes "x \<le> 0"
  shows "round_half_even x \<le> 0"
proof (cases "x = of_int \<lfloor>x\<rfloor>")
  case True
  then have "round_half_even x = \<lfloor>x\<rfloor>"
    by (simp add: round_half_even_def)
  with assms show ?thesis
    by simp
next
  case False
  then have "of_int \<lfloor>x\<rfloor> < x"
    using of_int_floor_le [of x] by linarith
  with assms have "\<lfloor>x\<rfloor> < 0"
    by linarith
  then show ?thesis
    by (simp add: round_half_even_def Let_def)
qed

text \<open>A multiple of the unit in the last place, in range, is a double.\<close>

lemma to_double_exact:
  assumes "q \<noteq> 0" "q = of_int k * 2 powi (max (binade \<bar>q\<bar>) (- 1022) - 52)"
    and "\<bar>q\<bar> < 2 powi 1024"
  shows "to_double q = Fin q"
proof -
  let ?u = "(2::rat) powi (max (binade \<bar>q\<bar>) (- 1022) - 52)"
  have u: "0 < ?u"
    by (rule powi_two_pos)
  have "q / ?u = of_int k"
    using assms(2) u by (simp add: field_simps)
  then have "of_int (round_half_even (q / ?u)) * ?u = q"
    using assms(2) by (simp add: round_half_even_of_int)
  then show ?thesis
    using assms(1,3) by (simp add: to_double_def Let_def abs_less_iff not_le)
qed

text \<open>The integers below \<open>2^53\<close> in magnitude are doubles.\<close>

lemma to_double_of_int:
  assumes "\<bar>i\<bar> < 2 ^ 53"
  shows "to_double (of_int i) = Fin (of_int i)"
proof (cases "i = 0")
  case True
  then show ?thesis
    by (simp add: to_double_zero)
next
  case False
  let ?q = "of_int i :: rat"
  let ?e = "binade \<bar>?q\<bar>"
  have pos: "0 < \<bar>?q\<bar>"
    using False by simp
  have one: "1 \<le> \<bar>?q\<bar>"
  proof -
    have "1 \<le> \<bar>i\<bar>" using False by simp
    then have "(of_int 1 :: rat) \<le> of_int \<bar>i\<bar>" by (simp only: of_int_le_iff)
    then show ?thesis by simp
  qed
  have lt: "\<bar>?q\<bar> < 2 powi 53"
  proof -
    have "(of_int \<bar>i\<bar> :: rat) < of_int (2 ^ 53)" using assms by (simp only: of_int_less_iff)
    then show ?thesis by simp
  qed
  from binade_bounds [OF pos] have b: "2 powi ?e \<le> \<bar>?q\<bar>" "\<bar>?q\<bar> < 2 powi (?e + 1)"
    by simp_all
  have "(2::rat) powi ?e < 2 powi 53"
    using b(1) lt by simp
  then have e53: "?e < 53"
    by (rule powi_two_less_cancel)
  have "(2::rat) powi 0 < 2 powi (?e + 1)"
    using one b(2) by simp
  then have e0: "0 \<le> ?e"
    using powi_two_less_cancel [of 0 "?e + 1"] by simp
  have mx: "max ?e (- 1022) = ?e"
    using e0 by simp
  have "(2::rat) powi (52 - ?e) * 2 powi (?e - 52) = 2 powi 0"
    using power_int_add [of "2::rat" "52 - ?e" "?e - 52"] by simp
  then have "?q = of_int (i * 2 ^ nat (52 - ?e)) * 2 powi (?e - 52)"
    using e53 powi_nat [of "52 - ?e"] by (simp add: mult.assoc)
  then have q: "?q = of_int (i * 2 ^ nat (52 - ?e)) * 2 powi (max (binade \<bar>?q\<bar>) (- 1022) - 52)"
    by (simp only: mx)
  have "(2::rat) powi 53 \<le> 2 powi 1024"
    by (intro power_int_increasing) simp_all
  then have big: "\<bar>?q\<bar> < 2 powi 1024"
    using lt by simp
  have "?q \<noteq> 0"
    using False by simp
  then show ?thesis
    using q big by (rule to_double_exact)
qed

lemma to_double_nonneg:
  assumes "0 \<le> q"
  shows "\<not> Number_lt (to_double q) (Fin 0)"
proof (cases "q = 0")
  case True
  then show ?thesis by (simp add: to_double_zero)
next
  case False
  let ?u = "(2::rat) powi (max (binade \<bar>q\<bar>) (- 1022) - 52)"
  have "0 \<le> q / ?u"
    using assms powi_two_pos [of "max (binade \<bar>q\<bar>) (- 1022) - 52"] by simp
  then have "0 \<le> round_half_even (q / ?u)"
    by (rule round_half_even_nonneg)
  then have "(0::rat) \<le> of_int (round_half_even (q / ?u)) * ?u"
    using powi_two_pos [of "max (binade \<bar>q\<bar>) (- 1022) - 52"] by simp
  then show ?thesis
    using False by (simp add: to_double_def Let_def)
qed

lemma to_double_nonpos:
  assumes "q \<le> 0" "0 < b"
  shows "Number_lt (to_double q) (Fin b)"
proof (cases "q = 0")
  case True
  then show ?thesis using assms(2) by (simp add: to_double_zero)
next
  case False
  let ?u = "(2::rat) powi (max (binade \<bar>q\<bar>) (- 1022) - 52)"
  have u: "0 < ?u"
    by (rule powi_two_pos)
  have "q / ?u \<le> 0"
    using assms(1) u by (simp add: divide_le_0_iff)
  then have "round_half_even (q / ?u) \<le> 0"
    by (rule round_half_even_nonpos)
  then have r: "of_int (round_half_even (q / ?u)) * ?u \<le> (0::rat)"
    using u by (simp add: mult_le_0_iff)
  have "(0::rat) < 2 powi 1024"
    by (rule powi_two_pos)
  with r have "\<not> 2 powi 1024 \<le> of_int (round_half_even (q / ?u)) * ?u"
    by linarith
  then show ?thesis
    using False r assms(2) by (simp add: to_double_def Let_def)
qed

text \<open>
  The doubles that the decimal literals 0.3, 0.7, 0.2, 0.1, 0.07, 0.34702089498750865,
  0.000001, 0.30000000000000004 and 0.39999999999999997 denote, and the sums and the
  products with 100000 that the library forms of them in what follows. Two of the sums
  fall half way between two doubles and go to the even one.
\<close>

lemma double_0_3: "to_double (3 / 10) = Fin (5404319552844595 / 18014398509481984)"
  using to_double_nearest [of "3 / 10" "- 2" 5404319552844595] by simp

lemma double_0_7: "to_double (7 / 10) = Fin (3152519739159347 / 4503599627370496)"
  using to_double_nearest [of "7 / 10" "- 1" 6305039478318694] by simp

lemma double_0_2: "to_double (1 / 5) = Fin (3602879701896397 / 18014398509481984)"
  using to_double_nearest [of "1 / 5" "- 3" 7205759403792794] by simp

lemma double_0_1: "to_double (1 / 10) = Fin (3602879701896397 / 36028797018963968)"
  using to_double_nearest [of "1 / 10" "- 4" 7205759403792794] by simp

lemma double_0_07: "to_double (7 / 100) = Fin (1261007895663739 / 18014398509481984)"
  using to_double_nearest [of "7 / 100" "- 4" 5044031582654956] by simp

lemma double_0_347: "to_double (6940417899750173 / 20000000000000000) = Fin (1490443395 / 4294967296)"
  using to_double_nearest [of "6940417899750173 / 20000000000000000" "- 2" 6251372693422080] by simp

lemma double_0_000001: "to_double (1 / 1000000) = Fin (4722366482869645 / 4722366482869645213696)"
  using to_double_nearest [of "1 / 1000000" "- 20" 4722366482869645] by simp

lemma double_0_30000000000000004: "to_double (7500000000000001 / 25000000000000000) = Fin (1351079888211149 / 4503599627370496)"
  using to_double_nearest [of "7500000000000001 / 25000000000000000" "- 2" 5404319552844596] by simp

lemma double_0_39999999999999997: "to_double (39999999999999997 / 100000000000000000) = Fin (7205759403792793 / 18014398509481984)"
  using to_double_nearest [of "39999999999999997 / 100000000000000000" "- 2" 7205759403792793] by simp

lemma double_0_3_fixed: "to_double (5404319552844595 / 18014398509481984) = Fin (5404319552844595 / 18014398509481984)"
  using to_double_nearest [of "5404319552844595 / 18014398509481984" "- 2" 5404319552844595] by simp

lemma double_0_1_fixed: "to_double (3602879701896397 / 36028797018963968) = Fin (3602879701896397 / 36028797018963968)"
  using to_double_nearest [of "3602879701896397 / 36028797018963968" "- 4" 7205759403792794] by simp

lemma sum_0_3_0_7: "to_double (18014398509481983 / 18014398509481984) = Fin 1"
proof -
  let ?q = "18014398509481983 / 18014398509481984 :: rat"
  have 1: "0 < ?q" by simp
  have 2: "2 powi (- 1) \<le> ?q" by (simp add: power_int_minus)
  have 3: "?q < 2 powi (- 1 + 1)" by (simp add: power_int_minus)
  have u: "(2::rat) powi (- 1 - 52) = 1 / 9007199254740992" by (simp add: power_int_minus field_simps)
  have 4: "?q = (of_int 9007199254740991 + 1 / 2) * 2 powi (- 1 - 52)" by (simp add: u)
  have 5: "(9007199254740991 :: int) < 2 ^ 53" by simp
  from to_double_tie [OF 1 2 3 _ _ 4 5]
  have "to_double ?q =
      Fin (of_int (if even (9007199254740991::int) then 9007199254740991 else 9007199254740991 + 1) * 2 powi (- 1 - 52))"
    by simp
  then show ?thesis
    by (simp add: u)
qed

lemma sum_0_1_0_2: "to_double (10808639105689191 / 36028797018963968) = Fin (1351079888211149 / 4503599627370496)"
proof -
  let ?q = "10808639105689191 / 36028797018963968 :: rat"
  have 1: "0 < ?q" by simp
  have 2: "2 powi (- 2) \<le> ?q" by (simp add: power_int_minus)
  have 3: "?q < 2 powi (- 2 + 1)" by (simp add: power_int_minus)
  have u: "(2::rat) powi (- 2 - 52) = 1 / 18014398509481984" by (simp add: power_int_minus field_simps)
  have 4: "?q = (of_int 5404319552844595 + 1 / 2) * 2 powi (- 2 - 52)" by (simp add: u)
  have 5: "(5404319552844595 :: int) < 2 ^ 53" by simp
  from to_double_tie [OF 1 2 3 _ _ 4 5]
  have "to_double ?q =
      Fin (of_int (if even (5404319552844595::int) then 5404319552844595 else 5404319552844595 + 1) * 2 powi (- 2 - 52))"
    by simp
  then show ?thesis
    by (simp add: u)
qed

lemma product_0_347: "to_double (4657635609375 / 134217728) = Fin (4657635609375 / 134217728)"
  using to_double_nearest [of "4657635609375 / 134217728" 15 4769418864000000] by simp

lemma product_0_000001: "to_double (14757395258967640625 / 147573952589676412928) = Fin (7205759403792793 / 72057594037927936)"
  using to_double_nearest [of "14757395258967640625 / 147573952589676412928" "- 4" 7205759403792793] by simp

lemma product_0_000001_fixed: "to_double (7205759403792793 / 72057594037927936) = Fin (7205759403792793 / 72057594037927936)"
  using to_double_nearest [of "7205759403792793 / 72057594037927936" "- 4" 7205759403792793] by simp

lemma product_0_2: "to_double (11258999068426240625 / 562949953421312) = Fin 20000"
  using to_double_nearest [of "11258999068426240625 / 562949953421312" 14 5497558138880000] by simp

lemma product_0_1: "to_double (11258999068426240625 / 1125899906842624) = Fin 10000"
  using to_double_nearest [of "11258999068426240625 / 1125899906842624" 13 5497558138880000] by simp

lemma product_0_07: "to_double (3940649673949184375 / 562949953421312) = Fin (7696581394432001 / 1099511627776)"
  using to_double_nearest [of "3940649673949184375 / 562949953421312" 12 7696581394432001] by simp

lemma product_0_39999999999999997: "to_double (22517998136852478125 / 562949953421312) = Fin 40000"
  using to_double_nearest [of "22517998136852478125 / 562949953421312" 15 5497558138880000] by simp


subsection \<open>Reading back a stored number\<close>

lemma digit_char_facts_all:
  "\<forall>d \<in> set [0..<10]. digit_value (digit_char d) = Some d \<and> \<not> is_StrWhiteSpaceChar (digit_char d)
      \<and> digit_char d \<notin> set ''-+xX''"
  by code_simp

lemma digit_char_facts:
  assumes "d < 10"
  shows "digit_value (digit_char d) = Some d" "\<not> is_StrWhiteSpaceChar (digit_char d)"
    "digit_char d \<noteq> CHR ''-''" "digit_char d \<noteq> CHR ''+''" "digit_char d \<noteq> CHR ''x''"
    "digit_char d \<noteq> CHR ''X''"
  using digit_char_facts_all assms by auto

lemma digits_value_snoc: "digits_value R (ds @ [d]) = digits_value R ds * R + d"
  by (simp add: digits_value_def)

lemma nat_toString_digits:
  "\<exists>ds. ds \<noteq> [] \<and> nat_toString n = map digit_char ds \<and> (\<forall>d \<in> set ds. d < 10) \<and> digits_value 10 ds = n"
proof (induction n rule: nat_toString.induct)
  case (1 n)
  show ?case
  proof (cases "n < 10")
    case True
    then show ?thesis
      by (intro exI [of _ "[n]"]) (simp add: nat_toString.simps [of n] digits_value_def)
  next
    case False
    with 1 obtain ds where ds: "ds \<noteq> []" "nat_toString (n div 10) = map digit_char ds"
      "\<forall>d \<in> set ds. d < 10" "digits_value 10 ds = n div 10"
      by blast
    with False show ?thesis
      by (intro exI [of _ "ds @ [n mod 10]"]) (simp add: nat_toString.simps [of n] digits_value_snoc)
  qed
qed

lemma read_digits_digit_chars:
  "\<forall>d \<in> set ds. d < 10 \<Longrightarrow> read_digits 10 (map digit_char ds) = ds"
  by (induction ds) (simp_all add: digit_char_facts)

lemma parseInt_plain:
  assumes "dropWhile is_StrWhiteSpaceChar S = S" "take 1 S \<noteq> ''-''" "take 1 S \<noteq> ''+''"
    "take 2 S \<noteq> ''0x''" "take 2 S \<noteq> ''0X''" "read_digits 10 S \<noteq> []"
  shows "parseInt S = Some (int (digits_value 10 (read_digits 10 S)))"
  unfolding parseInt_def Let_def using assms by simp

lemma parseInt_minus:
  assumes "take 1 S \<noteq> ''-''" "take 1 S \<noteq> ''+''"
    "take 2 S \<noteq> ''0x''" "take 2 S \<noteq> ''0X''" "read_digits 10 S \<noteq> []"
  shows "parseInt (CHR ''-'' # S) = Some (- int (digits_value 10 (read_digits 10 S)))"
proof -
  have "dropWhile is_StrWhiteSpaceChar (CHR ''-'' # S) = CHR ''-'' # S"
    by (simp add: is_StrWhiteSpaceChar_def)
  then show ?thesis
    unfolding parseInt_def Let_def using assms by simp
qed

lemma parseInt_digits:
  assumes "ds \<noteq> []" "\<forall>d \<in> set ds. d < 10"
  shows "parseInt (map digit_char ds) = Some (int (digits_value 10 ds))"
    and "parseInt (CHR ''-'' # map digit_char ds) = Some (- int (digits_value 10 ds))"
proof -
  let ?S = "map digit_char ds"
  from assms obtain d ds' where ds: "ds = d # ds'" "d < 10" "\<forall>d \<in> set ds'. d < 10"
    by (cases ds) auto
  have x: "take 2 ?S \<noteq> ''0x''" "take 2 ?S \<noteq> ''0X''"
    using ds by (cases ds'; simp add: digit_char_facts)+
  have y: "take 1 ?S \<noteq> ''-''" "take 1 ?S \<noteq> ''+''" "dropWhile is_StrWhiteSpaceChar ?S = ?S"
    using ds by (simp_all add: digit_char_facts)
  have r: "read_digits 10 ?S = ds"
    using assms(2) by (rule read_digits_digit_chars)
  show "parseInt ?S = Some (int (digits_value 10 ds))"
    using parseInt_plain [of ?S] x y r assms(1) by simp
  show "parseInt (CHR ''-'' # ?S) = Some (- int (digits_value 10 ds))"
    using parseInt_minus [of ?S] x y r assms(1) by simp
qed

text \<open>What \<^verbatim>\<open>setItem\<close> wrote for a number, \<^verbatim>\<open>parseInt\<close> reads back.\<close>

lemma parseInt_Number_toString: "parseInt (Number_toString i) = Some i"
proof -
  obtain ds where "ds \<noteq> []" "nat_toString (nat \<bar>i\<bar>) = map digit_char ds" "\<forall>d \<in> set ds. d < 10"
    "digits_value 10 ds = nat \<bar>i\<bar>"
    using nat_toString_digits by blast
  then show ?thesis
    using parseInt_digits [of ds] by (cases "i < 0") (simp_all add: Number_toString_def)
qed

subsection \<open>Reading back a stored assignment\<close>

lemma hex_value_hex_char_all: "\<forall>d \<in> set [0..<16]. hex_value (hex_char d) = Some d"
  by code_simp

lemma hex_value_hex_char: "d < 16 \<Longrightarrow> hex_value (hex_char d) = Some d"
  using hex_value_hex_char_all by simp

lemma of_char_eqD: "of_char c = (n::nat) \<Longrightarrow> n = of_char d \<Longrightarrow> c = d"
  by simp

lemma of_char_eq_numeral_iff:
  "of_char c = (8::nat) \<longleftrightarrow> c = CHR 0x08"
  "of_char c = (9::nat) \<longleftrightarrow> c = CHR 0x09"
  "of_char c = (10::nat) \<longleftrightarrow> c = CHR 0x0A"
  "of_char c = (12::nat) \<longleftrightarrow> c = CHR 0x0C"
  "of_char c = (13::nat) \<longleftrightarrow> c = CHR 0x0D"
  "of_char c = (34::nat) \<longleftrightarrow> c = CHR 0x22"
  "of_char c = (92::nat) \<longleftrightarrow> c = CHR 0x5C"
  by (auto elim: of_char_eqD)

lemma parse_string_body_quote_char:
  "parse_string_body (JSON_quote_char c @ rest) =
     map_option (\<lambda>(s, t). (c # s, t)) (parse_string_body rest)"
proof -
  let ?n = "of_char c :: nat"
  consider "?n = 8" | "?n = 9" | "?n = 10" | "?n = 12" | "?n = 13" | "?n = 34" | "?n = 92"
    | "?n < 32" "?n \<notin> {8, 9, 10, 12, 13}" | "?n \<ge> 32" "?n \<noteq> 34" "?n \<noteq> 92"
    by fastforce
  then show ?thesis
  proof cases
    case 8
    then have n: "?n div 16 < 16" "?n mod 16 < 16" "?n div 16 = 0 \<or> ?n div 16 = 1"
      by auto
    have c: "char_of (?n div 16 * 16 + ?n mod 16) = c"
      by simp
    from 8 have q: "JSON_quote_char c =
        [CHR 0x5C, CHR ''u'', CHR ''0'', CHR ''0'', hex_char (?n div 16), hex_char (?n mod 16)]"
      by (auto simp: JSON_quote_char_def Let_def)
    have z: "hex_value CHR ''0'' = Some 0"
      by (simp add: hex_value_def digit_value_def)
    show ?thesis
      unfolding q using c by (simp add: hex_value_hex_char n z)
  next
    case 9
    then have "c \<noteq> CHR 0x22" "c \<noteq> CHR 0x5C"
      by auto
    with 9 show ?thesis
      by (auto simp: JSON_quote_char_def Let_def)
  qed (auto simp: JSON_quote_char_def Let_def of_char_eq_numeral_iff)
qed

lemma parse_string_body_quote:
  "parse_string_body (concat (map JSON_quote_char s) @ CHR 0x22 # rest) = Some (s, rest)"
  by (induction s) (simp_all add: parse_string_body_quote_char)

text \<open>What \<^verbatim>\<open>setVariant\<close> wrote, \<^verbatim>\<open>JSON.parse\<close> reads back as an object with the one member \<^verbatim>\<open>id\<close>.\<close>

lemma JSON_parse_stringify_id:
  "JSON_parse (JSON_stringify_id s) = Inr (JObject [(''id'', JString s)])"
proof -
  let ?q = "concat (map JSON_quote_char s)"
  obtain k where k: "2 * length (JSON_stringify_id s) + 2 = Suc (Suc (Suc k))"
    by (simp add: JSON_stringify_id_def JSON_quote_def)
  have b1: "parse_string_body (?q @ [CHR 0x22, CHR ''}'']) = Some (s, [CHR ''}''])"
    using parse_string_body_quote [of s "[CHR ''}'']"] by simp
  have ws: "skip_ws (CHR 0x22 # t) = CHR 0x22 # t" "skip_ws (CHR ''}'' # t) = CHR ''}'' # t"
    "skip_ws (CHR '':'' # t) = CHR '':'' # t" "skip_ws (CHR ''{'' # t) = CHR ''{'' # t"
    "skip_ws [] = []" for t
    by (simp_all add: skip_ws_def is_JSON_ws_def)
  show ?thesis
    unfolding JSON_parse_def k
    by (simp add: JSON_stringify_id_def JSON_quote_def ws b1)
qed

lemma JSON_stringify_id_nonempty: "JSON_stringify_id s \<noteq> []"
  by (simp add: JSON_stringify_id_def)

section \<open>The weighted draw\<close>

lemma find_map_Suc: "List.find P (map Suc xs) = map_option Suc (List.find (\<lambda>i. P (Suc i)) xs)"
  by (induction xs) simp_all

lemma allocateVariant_loop_find:
  "allocateVariant_loop r c vs =
     (case List.find (\<lambda>i. Number_ge (foldl Number_add c (map weight (take (Suc i) vs))) r)
             [0..<length vs] of
        None \<Rightarrow> Id_only ''no-chosen-variant''
      | Some i \<Rightarrow> Registered (vs ! i))"
proof (induction vs arbitrary: c)
  case Nil
  then show ?case by simp
next
  case (Cons v vs)
  have upt: "[0..<length (v # vs)] = 0 # map Suc [0..<length vs]"
    by (simp add: upt_conv_Cons map_Suc_upt del: upt_Suc)
  show ?case
    unfolding upt
    by (simp add: find_map_Suc Cons.IH option.case_eq_if option.map_sel del: upt_Suc)
qed

lemma allocateVariant_loop_first_reaching:
  "allocateVariant_loop r (Fin 0) vs =
     (case first_reaching r vs of
        None \<Rightarrow> Id_only ''no-chosen-variant''
      | Some i \<Rightarrow> Registered (vs ! i))"
  by (simp add: allocateVariant_loop_find first_reaching_def cumulative_weight_def)

text \<open>\<open>first_reaching\<close> is the first position whose cumulative weight reaches the draw.\<close>

lemma find_upt_Some_iff:
  "List.find P [0..<n] = Some i \<longleftrightarrow> i < n \<and> P i \<and> (\<forall>j < i. \<not> P j)"
proof
  assume "List.find P [0..<n] = Some i"
  then obtain k where k: "k < length [0..<n]" "P ([0..<n] ! k)" "i = [0..<n] ! k"
    "\<forall>j < k. \<not> P ([0..<n] ! j)"
    unfolding find_Some_iff by blast
  then have "i = k" by simp
  with k show "i < n \<and> P i \<and> (\<forall>j < i. \<not> P j)" by simp
next
  assume a: "i < n \<and> P i \<and> (\<forall>j < i. \<not> P j)"
  then have "i < length [0..<n] \<and> P ([0..<n] ! i) \<and> i = [0..<n] ! i \<and> (\<forall>j < i. \<not> P ([0..<n] ! j))"
    by simp
  then show "List.find P [0..<n] = Some i"
    unfolding find_Some_iff by blast
qed

lemma first_reaching_Some_iff:
  "first_reaching r vs = Some i \<longleftrightarrow>
     i < length vs \<and> Number_ge (cumulative_weight vs i) r \<and>
     (\<forall>j < i. \<not> Number_ge (cumulative_weight vs j) r)"
  unfolding first_reaching_def find_upt_Some_iff by simp

lemma first_reaching_None_iff:
  "first_reaching r vs = None \<longleftrightarrow> (\<forall>i < length vs. \<not> Number_ge (cumulative_weight vs i) r)"
  unfolding first_reaching_def find_None_iff by simp

text \<open>
  The cumulative weight is a sum of doubles, so it is the exact sum of the weights as long
  as every partial sum is a double itself; where one is not, it is rounded, and the
  rounded sum is what the draw is compared with.
\<close>

lemma cumulative_weight_0: "cumulative_weight vs 0 = (case vs of [] \<Rightarrow> Fin 0 | v # vs' \<Rightarrow> Number_add (Fin 0) (weight v))"
  by (simp add: cumulative_weight_def split: list.split)

lemma cumulative_weight_Suc:
  "Suc i < length vs \<Longrightarrow>
     cumulative_weight vs (Suc i) = Number_add (cumulative_weight vs i) (weight (vs ! Suc i))"
  by (simp add: cumulative_weight_def take_Suc_conv_app_nth [of "Suc i" vs])

lemma Number_toString_34702: "Number_toString 34702 = ''34702''"
  by (simp add: Number_toString_def nat_toString.simps digit_char_def)

lemma parseInt_34702: "parseInt ''34702'' = Some 34702"
  using parseInt_Number_toString [of 34702] by (simp only: Number_toString_34702)

lemma stub_draw_value: "stub_draw = Fin (1490443395 / 4294967296)"
  by (simp add: stub_draw_def double_0_347)

lemma weight_variant_A: "weight variant_A = Fin (5404319552844595 / 18014398509481984)"
  by (simp add: variant_A_def double_0_3)

lemma weight_variant_B: "weight variant_B = Fin (3152519739159347 / 4503599627370496)"
  by (simp add: variant_B_def double_0_7)

lemma cumulative_weight_AB:
  "cumulative_weight [variant_A, variant_B] 0 = Fin (5404319552844595 / 18014398509481984)"
  "cumulative_weight [variant_A, variant_B] (Suc 0) = Fin 1"
  by (simp_all add: cumulative_weight_def weight_variant_A weight_variant_B double_0_3_fixed
      sum_0_3_0_7)

lemma first_reaching_AB: "first_reaching stub_draw [variant_A, variant_B] = Some 1"
  by (simp add: first_reaching_def cumulative_weight_AB stub_draw_value Number_ge_def upt_rec)

text \<open>
  C1. In \<^verbatim>\<open>segment()\<close>, for a user who is not yet segmented and is eligible, the draw \<open>r\<close>
  selects the first variant in registration order whose cumulative weight is at least
  \<open>r\<close>, and its id is persisted; when no cumulative weight reaches \<open>r\<close> the sentinel
  \<^verbatim>\<open>no-chosen-variant\<close> is persisted. No error is raised either way, and one draw is taken.
  The cumulative weight of a variant is the sum of the weights of it and all earlier
  variants as the language adds them up, in registration order from 0, and the
  comparison is that of the language.
\<close>

theorem segment_weighted_draw:
  assumes "localStorage w = Some st" "\<not> hasExpired e w" "variants e \<noteq> []"
    and "isParticipating e w = Inr False" "canParticipate e w = Inr True"
  shows "segment e w =
     (Inr (), w\<lparr>random_calls := Suc (random_calls w),
                localStorage := Some (st(experimentKey e \<mapsto> JSON_stringify_id
                  (case first_reaching (random_source w (random_calls w)) (variants e) of
                     None \<Rightarrow> ''no-chosen-variant''
                   | Some i \<Rightarrow> variant_id (variants e ! i))))\<rparr>)"
proof -
  have "segment e w = participating e w"
    using assms by (simp add: segment_def)
  then show ?thesis
    using assms(1)
    by (simp add: participating_def allocateVariant_def random_def setVariant_def container_def
        allocateVariant_loop_first_reaching split: option.split)
qed

text \<open>
  The example of the specification and of the test suite: variant A of weight 0.3, then
  variant B of weight 0.7, and the draw 0.347...: B is persisted.
\<close>

theorem segment_weighted_draw_witness:
  "segment (test_experiment\<lparr>variants := [variant_A, variant_B]\<rparr>) test_world =
     (Inr (), test_world\<lparr>random_calls := 2,
        localStorage := Some (test_store(''experiment_test'' \<mapsto> JSON_stringify_id ''variant-B''))\<rparr>)"
proof -
  let ?e = "test_experiment\<lparr>variants := [variant_A, variant_B]\<rparr>"
  have 1: "localStorage test_world = Some test_store"
    by (simp add: test_world_def)
  have 2: "\<not> hasExpired ?e test_world"
    by (simp add: hasExpired_def test_experiment_def)
  have 3: "variants ?e \<noteq> []"
    by simp
  have 4: "isParticipating ?e test_world = Inr False"
    by (simp add: isParticipating_def getVariant_def container_def 1 test_experiment_def test_store_def)
  have "to_double (of_int 34702) = Fin (of_int 34702)"
    by (rule to_double_of_int) simp
  then have n: "parsed_number (Some 34702) = Fin 34702"
    by (simp add: parsed_number_def)
  have p: "to_double 100000 = Fin 100000"
    using to_double_of_int [of 100000] by simp
  have 5: "canParticipate ?e test_world = Inr True"
    by (simp add: canParticipate_def getId_def container_def 1 test_experiment_def test_store_def
        ToString_item_def parseInt_34702 n Math_max_def Math_min_def p)
  have 6: "random_source test_world n = stub_draw"
    "random_calls test_world = 1" "experimentKey ?e = ''experiment_test''" for n
    by (simp_all add: test_world_def fresh_world_def test_experiment_def)
  have 7: "variant_id variant_B = ''variant-B''"
    by (simp add: variant_B_def)
  show ?thesis
    using segment_weighted_draw [OF 1 2 3 4 5] by (simp add: 6 7 first_reaching_AB numeral_2_eq_2)
qed

text \<open>
  Where a partial sum is rounded the rounded value decides. With the weights 0.1, 0.2 and
  0.7 and the draw 0.30000000000000004, the sum of the first two weights is half way
  between two doubles and goes up to 0.30000000000000004, which reaches the draw: the
  second variant is selected, although 0.1 + 0.2 added exactly is below the draw.
\<close>

lemma first_reaching_rounded_sum:
  assumes "map weight vs = [to_double (1 / 10), to_double (2 / 10), to_double (7 / 10)]"
  shows "first_reaching (to_double (30000000000000004 / 100000000000000000)) vs = Some 1"
proof -
  from assms have l: "length vs = 3"
    using length_map [of weight vs] by simp
  have c: "cumulative_weight vs 0 = Fin (3602879701896397 / 36028797018963968)"
    "cumulative_weight vs (Suc 0) = Fin (1351079888211149 / 4503599627370496)"
    by (simp_all add: cumulative_weight_def take_map [symmetric] assms double_0_1 double_0_2
        double_0_1_fixed sum_0_1_0_2)
  show ?thesis
    by (simp add: first_reaching_def l c double_0_30000000000000004 Number_ge_def upt_rec)
qed

section \<open>Segmentation\<close>

subsection \<open>Reading the store\<close>

lemma getId_stored:
  "localStorage w = Some st \<Longrightarrow> st (uidKey e) = Some (Number_toString n) \<Longrightarrow> getId e w = Inr (Some n)"
  by (simp add: getId_def container_def ToString_item_def parseInt_Number_toString)

lemma getVariant_stored:
  "localStorage w = Some st \<Longrightarrow> st (experimentKey e) = Some (JSON_stringify_id s) \<Longrightarrow>
     getVariant e w = Inr (Some (JObject [(''id'', JString s)]))"
  by (simp add: getVariant_def container_def JSON_parse_stringify_id JSON_stringify_id_nonempty)

lemma getVariant_absent:
  "localStorage w = Some st \<Longrightarrow> st (experimentKey e) = None \<Longrightarrow> getVariant e w = Inr None"
  by (simp add: getVariant_def container_def)

lemma isParticipating_stored:
  "localStorage w = Some st \<Longrightarrow> st (experimentKey e) = Some (JSON_stringify_id s) \<Longrightarrow>
     isParticipating e w = Inr True"
  by (simp add: isParticipating_def getVariant_stored)

lemma setVariant_result:
  "setVariant e c w = (Inr u, w1) \<Longrightarrow>
     \<exists>st. localStorage w = Some st \<and>
       w1 = w\<lparr>localStorage := Some (st(experimentKey e \<mapsto> JSON_stringify_id (chosen_id c)))\<rparr>"
  by (auto simp: setVariant_def container_def split: option.splits)

lemma hasExpired_now: "now w1 = now w \<Longrightarrow> hasExpired e w1 = hasExpired e w"
  by (simp add: hasExpired_def split: option.splits)

lemma setVariant_then_segment:
  assumes "setVariant e c w = (Inr u, w1)" "\<not> hasExpired e w" "variants e \<noteq> []"
  shows "segment e w1 = (Inr (), w1)"
proof -
  from assms(1) obtain st where st: "localStorage w = Some st"
    and w1: "w1 = w\<lparr>localStorage := Some (st(experimentKey e \<mapsto> JSON_stringify_id (chosen_id c)))\<rparr>"
    using setVariant_result by blast
  let ?st = "st(experimentKey e \<mapsto> JSON_stringify_id (chosen_id c))"
  have l: "localStorage w1 = Some ?st"
    unfolding w1 by simp
  have k: "?st (experimentKey e) = Some (JSON_stringify_id (chosen_id c))"
    by simp
  have p: "isParticipating e w1 = Inr True"
    using l k by (rule isParticipating_stored)
  have "now w1 = now w"
    unfolding w1 by simp
  then have x: "\<not> hasExpired e w1"
    using assms(2) hasExpired_now [of w1 w e] by simp
  have v: "\<not> length (variants e) \<le> 0"
    using assms(3) by simp
  show ?thesis
    unfolding segment_def by (simp only: x v p if_False sum.case bool.case)
qed

lemma segment_expired:
  "hasExpired e w \<Longrightarrow> segment e w =
     (case clearVariant e w of
        (Inl x, w') \<Rightarrow> (Inl x, w')
      | (Inr u, w') \<Rightarrow> (Inl (Error ''this experiment has expired''), w'))"
  by (simp add: segment_def)

lemma segment_no_variants:
  "\<not> hasExpired e w \<Longrightarrow> variants e = [] \<Longrightarrow>
     segment e w = (Inl (Error ''this experiment has no variants''), w)"
  by (simp add: segment_def)

lemma segment_live:
  "\<not> hasExpired e w \<Longrightarrow> variants e \<noteq> [] \<Longrightarrow> segment e w =
     (case isParticipating e w of
        Inl x \<Rightarrow> (Inl x, w)
      | Inr True \<Rightarrow> (Inr (), w)
      | Inr False \<Rightarrow>
          (case canParticipate e w of
             Inl x \<Rightarrow> (Inl x, w)
           | Inr True \<Rightarrow> participating e w
           | Inr False \<Rightarrow> notParticipating e w))"
  by (simp add: segment_def)

lemma segment_expired_fails: "hasExpired e w \<Longrightarrow> \<exists>x. fst (segment e w) = Inl x"
  by (simp add: segment_expired split: prod.split sum.split)

lemma segment_success_live:
  assumes "segment e w = (Inr u, w1)"
  shows "\<not> hasExpired e w" "variants e \<noteq> []"
proof -
  show 1: "\<not> hasExpired e w"
    using segment_expired_fails [of e w] assms by auto
  show "variants e \<noteq> []"
    using segment_no_variants [OF 1] assms by auto
qed

lemma segment_success_cases:
  assumes "segment e w = (Inr u, w1)"
  obtains "isParticipating e w = Inr True" "w1 = w"
  | "isParticipating e w = Inr False" "canParticipate e w = Inr True" "participating e w = (Inr u, w1)"
  | "isParticipating e w = Inr False" "canParticipate e w = Inr False" "notParticipating e w = (Inr u, w1)"
proof -
  note live = segment_live [OF segment_success_live [OF assms]]
  show thesis
  proof (cases "isParticipating e w")
    case (Inl x)
    with live assms show thesis by simp
  next
    case (Inr p)
    show thesis
    proof (cases p)
      case True
      with Inr live assms that(1) show thesis by simp
    next
      case False
      note np = this
      show thesis
      proof (cases "canParticipate e w")
        case (Inl x)
        with Inr np live assms show thesis by simp
      next
        case (Inr c)
        with \<open>isParticipating e w = Inr p\<close> np live assms that(2,3) show thesis
          by (cases c) simp_all
      qed
    qed
  qed
qed

text \<open>
  C3. \<^verbatim>\<open>segment()\<close> is idempotent. On an experiment that has not expired and has a variant,
  with an assignment of \<^verbatim>\<open>setVariant\<close> already in the store, the call returns without error
  and leaves the whole world (store, draws taken, functions called) as it was; and after any
  successful call, a second call succeeds and changes nothing, so the assignment after two
  calls is the one after the first.
\<close>

theorem segment_idempotent:
  "(localStorage w = Some st \<and> \<not> hasExpired e w \<and> variants e \<noteq> [] \<and>
      st (experimentKey e) = Some (JSON_stringify_id s) \<longrightarrow> segment e w = (Inr (), w)) \<and>
   (segment e w = (Inr (), w1) \<longrightarrow> segment e w1 = (Inr (), w1))"
proof (intro conjI impI)
  assume a: "localStorage w = Some st \<and> \<not> hasExpired e w \<and> variants e \<noteq> [] \<and>
      st (experimentKey e) = Some (JSON_stringify_id s)"
  then have "isParticipating e w = Inr True"
    using isParticipating_stored by blast
  with a show "segment e w = (Inr (), w)"
    by (simp add: segment_live)
next
  assume ok: "segment e w = (Inr (), w1)"
  note ne = segment_success_live [OF ok]
  from ok show "segment e w1 = (Inr (), w1)"
  proof (cases rule: segment_success_cases)
    case 1
    with ok show ?thesis by simp
  next
    case 2
    let ?w = "w\<lparr>random_calls := Suc (random_calls w)\<rparr>"
    from 2(3) obtain c where "setVariant e c ?w = (Inr (), w1)"
      by (simp add: participating_def allocateVariant_def random_def)
    moreover have "\<not> hasExpired e ?w"
      using ne(1) hasExpired_now [of ?w w e] by simp
    ultimately show ?thesis
      using ne(2) by (rule setVariant_then_segment)
  next
    case 3
    from 3(3) have "setVariant e (Id_only ''not-participating'') w = (Inr (), w1)"
      by (simp only: notParticipating_def)
    then show ?thesis
      using ne by (rule setVariant_then_segment)
  qed
qed


subsection \<open>The fixtures\<close>

lemma test_world_simps:
  "localStorage test_world = Some test_store" "now test_world = 1000"
  "random_source test_world n = stub_draw" "random_calls test_world = 1" "calls test_world = []"
  by (simp_all add: test_world_def fresh_world_def)

lemma segmented_world_simps:
  "localStorage segmented_world = Some (test_store(''experiment_test'' \<mapsto> JSON_stringify_id ''variant-B''))"
  "now segmented_world = 1000" "random_source segmented_world n = stub_draw"
  "random_calls segmented_world = 2" "calls segmented_world = []"
  by (simp_all add: segmented_world_def test_world_simps)

lemma test_experiment_simps:
  "exp_id test_experiment = ''test''" "options test_experiment = \<lparr>sampleSize = Fin 1, expiry = NaN\<rparr>"
  "uidKey test_experiment = ''conical_uid''" "storagePrefix test_experiment = ''experiment_''"
  "experimentKey test_experiment = ''experiment_test''" "min_id test_experiment = 0"
  "max_id test_experiment = 100000" "hasConverted test_experiment = False"
  "variants test_experiment = []" "handlers test_experiment = (\<lambda>event. [])"
  by (simp_all add: test_experiment_def)

lemma test_experiment_AB_simps:
  "exp_id test_experiment_AB = ''test''"
  "options test_experiment_AB = \<lparr>sampleSize = Fin 1, expiry = NaN\<rparr>"
  "uidKey test_experiment_AB = ''conical_uid''" "storagePrefix test_experiment_AB = ''experiment_''"
  "experimentKey test_experiment_AB = ''experiment_test''" "min_id test_experiment_AB = 0"
  "max_id test_experiment_AB = 100000" "hasConverted test_experiment_AB = False"
  "variants test_experiment_AB = [variant_A, variant_B]"
  "handlers test_experiment_AB = (\<lambda>event. [])"
  by (simp_all add: test_experiment_AB_def test_experiment_simps)

lemma expired_experiment_simps:
  "options expired_experiment = \<lparr>sampleSize = Fin 1, expiry = Fin 1\<rparr>"
  "experimentKey expired_experiment = ''experiment_test''"
  "variants expired_experiment = [variant_A, variant_B]"
  by (simp_all add: expired_experiment_def test_experiment_AB_simps)

lemma sampled_experiment_simps:
  "options sampled_experiment =
     \<lparr>sampleSize = Fin (3602879701896397 / 18014398509481984), expiry = NaN\<rparr>"
  "uidKey sampled_experiment = ''conical_uid''" "storagePrefix sampled_experiment = ''experiment_''"
  "exp_id sampled_experiment = ''test''"
  "experimentKey sampled_experiment = ''experiment_test''" "min_id sampled_experiment = 0"
  "max_id sampled_experiment = 100000" "variants sampled_experiment = [variant_A]"
  by (simp_all add: sampled_experiment_def test_experiment_simps double_0_2)

lemma test_store_simps:
  "test_store ''conical_uid'' = Some (Number_toString 34702)" "test_store ''experiment_test'' = None"
  by (simp_all add: test_store_def Number_toString_34702)

lemma double_100000: "to_double 100000 = Fin 100000"
  using to_double_of_int [of 100000] by simp

lemma parsed_number_Some: "\<bar>n\<bar> < 2 ^ 53 \<Longrightarrow> parsed_number (Some n) = Fin (of_int n)"
  by (simp add: parsed_number_def to_double_of_int)

lemma parsed_number_34702: "parsed_number (Some 34702) = Fin 34702"
  using parsed_number_Some [of 34702] by simp

lemma getId_test_world: "uidKey e = ''conical_uid'' \<Longrightarrow> getId e test_world = Inr (Some 34702)"
  using getId_stored [of test_world test_store e 34702] by (simp add: test_world_simps test_store_simps)

lemma isParticipating_test_world:
  "experimentKey e = ''experiment_test'' \<Longrightarrow> isParticipating e test_world = Inr False"
  by (simp add: isParticipating_def getVariant_absent [of test_world test_store] test_world_simps
      test_store_simps)

lemma not_expired_no_expiry: "expiry (options e) = NaN \<Longrightarrow> \<not> hasExpired e w"
  by (simp add: hasExpired_def)

text \<open>The first segmentation test, computed step by step.\<close>

lemma segment_test_experiment_AB: "segment test_experiment_AB test_world = (Inr (), segmented_world)"
proof -
  have live: "\<not> hasExpired test_experiment_AB test_world" "variants test_experiment_AB \<noteq> []"
    by (simp_all add: not_expired_no_expiry test_experiment_AB_simps)
  have can: "canParticipate test_experiment_AB test_world = Inr True"
    by (simp add: canParticipate_def getId_test_world test_experiment_AB_simps Math_max_def
        Math_min_def parsed_number_34702 double_100000)
  have draw: "allocateVariant_loop stub_draw (Fin 0) [variant_A, variant_B] = Registered variant_B"
    by (simp add: allocateVariant_loop_first_reaching first_reaching_AB
        del: allocateVariant_loop.simps)
  have alloc: "allocateVariant test_experiment_AB test_world =
      (Registered variant_B, test_world\<lparr>random_calls := 2\<rparr>)"
    by (simp add: allocateVariant_def random_def test_world_simps test_experiment_AB_simps draw
        numeral_2_eq_2 del: allocateVariant_loop.simps)
  have b: "variant_id variant_B = ''variant-B''"
    by (simp add: variant_B_def)
  have "participating test_experiment_AB test_world = (Inr (), segmented_world)"
    by (simp add: participating_def alloc setVariant_def container_def test_world_simps
        test_experiment_AB_simps segmented_world_def b)
  then show ?thesis
    by (simp add: segment_live [OF live] can isParticipating_test_world test_experiment_AB_simps)
qed

text \<open>The first segmentation test run twice, as in the test of the same variant being used.\<close>

theorem segment_idempotent_witness:
  "segment test_experiment_AB test_world = (Inr (), segmented_world) \<and>
   segment test_experiment_AB segmented_world = (Inr (), segmented_world)"
proof -
  let ?st = "test_store(''experiment_test'' \<mapsto> JSON_stringify_id ''variant-B'')"
  have h: "localStorage segmented_world = Some ?st \<and> \<not> hasExpired test_experiment_AB segmented_world \<and>
      variants test_experiment_AB \<noteq> [] \<and>
      ?st (experimentKey test_experiment_AB) = Some (JSON_stringify_id ''variant-B'')"
    by (simp add: segmented_world_simps not_expired_no_expiry test_experiment_AB_simps)
  have once: "segment test_experiment_AB test_world = (Inr (), segmented_world)"
    by (rule segment_test_experiment_AB)
  from segment_idempotent [of segmented_world ?st test_experiment_AB "''variant-B''" segmented_world] h
  have "segment test_experiment_AB segmented_world = (Inr (), segmented_world)"
    by blast
  moreover
  from segment_idempotent [of test_world ?st test_experiment_AB "''variant-B''" segmented_world] once
  have "segment test_experiment_AB segmented_world = (Inr (), segmented_world)"
    by blast
  ultimately show ?thesis
    using once by simp
qed

subsection \<open>Eligibility\<close>

lemma clamp_min_max: "clamp x (Fin 0) (Fin 1) = Math_min (Math_max x (Fin 0)) (Fin 1)"
  by (cases x) (simp_all add: clamp_def Math_min_def Math_max_def)

lemma canParticipate_stored:
  assumes "max_id e = 100000" "localStorage w = Some st" "st (uidKey e) = Some (Number_toString n)"
  shows "canParticipate e w =
     Inr (Number_lt (parsed_number (Some n))
            (Number_mul (Fin 100000) (clamp (sampleSize (options e)) (Fin 0) (Fin 1))))"
  by (simp add: canParticipate_def getId_stored [OF assms(2,3)] assms(1) clamp_min_max)

text \<open>
  C2. In \<^verbatim>\<open>segment()\<close>, a user whose persisted identity is \<open>n\<close> and who is not yet segmented
  is treated as eligible (allocated by the weighted draw) exactly when
  \<open>n < 100000 * clamp(sampleSize, 0, 1)\<close>, and is otherwise given the sentinel
  \<^verbatim>\<open>not-participating\<close>, for every sample size, also outside \<open>[0, 1]\<close>, infinite or
  \<^verbatim>\<open>NaN\<close>. The product and the comparison are those of the language, and \<open>n\<close> enters as
  the number that \<^verbatim>\<open>parseInt\<close> makes of it. With sample size 0 no identity from 0 on is
  eligible; with sample size 1 every identity below 100000 is.
\<close>

theorem segment_eligibility:
  assumes "constructed e" "localStorage w = Some st" "\<not> hasExpired e w" "variants e \<noteq> []"
    and "isParticipating e w = Inr False" "st (uidKey e) = Some (Number_toString n)"
  shows "canParticipate e w =
       Inr (Number_lt (parsed_number (Some n))
              (Number_mul (Fin 100000) (clamp (sampleSize (options e)) (Fin 0) (Fin 1)))) \<and>
     segment e w =
       (if Number_lt (parsed_number (Some n))
             (Number_mul (Fin 100000) (clamp (sampleSize (options e)) (Fin 0) (Fin 1)))
        then participating e w
        else (Inr (), w\<lparr>localStorage :=
                Some (st(experimentKey e \<mapsto> JSON_stringify_id ''not-participating''))\<rparr>)) \<and>
     (sampleSize (options e) = Fin 0 \<and> 0 \<le> n \<longrightarrow> segment e w = notParticipating e w) \<and>
     (sampleSize (options e) = Fin 1 \<and> n < 100000 \<longrightarrow> segment e w = participating e w)"
proof -
  let ?c = "Number_lt (parsed_number (Some n))
      (Number_mul (Fin 100000) (clamp (sampleSize (options e)) (Fin 0) (Fin 1)))"
  have mx: "max_id e = 100000"
    using assms(1) by (simp add: constructed_def)
  have can: "canParticipate e w = Inr ?c"
    using mx assms(2,6) by (rule canParticipate_stored)
  have np: "notParticipating e w =
      (Inr (), w\<lparr>localStorage := Some (st(experimentKey e \<mapsto> JSON_stringify_id ''not-participating''))\<rparr>)"
    by (simp add: notParticipating_def setVariant_def container_def assms(2))
  have seg: "segment e w = (if ?c then participating e w else notParticipating e w)"
    by (simp add: segment_live [OF assms(3,4)] assms(5) can)
  have zero: "\<not> ?c" if "sampleSize (options e) = Fin 0" "0 \<le> n"
  proof -
    have "\<not> Number_lt (to_double (of_int n)) (Fin 0)"
      using that(2) by (intro to_double_nonneg) simp
    then show ?thesis
      using that(1) by (simp add: clamp_def parsed_number_def to_double_zero)
  qed
  have one: "?c" if "sampleSize (options e) = Fin 1" "n < 100000"
  proof -
    have "Number_lt (to_double (of_int n)) (Fin 100000)"
    proof (cases "0 \<le> n")
      case True
      with that(2) have "\<bar>n\<bar> < 2 ^ 53"
        by simp
      then have "to_double (of_int n) = Fin (of_int n)"
        by (rule to_double_of_int)
      then show ?thesis
        using that(2) by simp
    next
      case False
      then show ?thesis
        by (intro to_double_nonpos) simp_all
    qed
    then show ?thesis
      using that(1) by (simp add: clamp_def parsed_number_def double_100000)
  qed
  show ?thesis
    using can seg np zero one by simp
qed

text \<open>
  The fourth segmentation test: sample size 0.2, identity 34702, which is not below
  \<open>100000 * 0.2\<close>, that is 20000.
\<close>

theorem segment_eligibility_witness:
  "segment sampled_experiment test_world =
     (Inr (), test_world\<lparr>localStorage :=
        Some (test_store(''experiment_test'' \<mapsto> JSON_stringify_id ''not-participating''))\<rparr>)"
proof -
  have 1: "constructed sampled_experiment"
    by (simp add: constructed_def sampled_experiment_simps)
  have 2: "localStorage test_world = Some test_store"
    by (simp add: test_world_simps)
  have 3: "\<not> hasExpired sampled_experiment test_world"
    by (simp add: not_expired_no_expiry sampled_experiment_simps)
  have 4: "variants sampled_experiment \<noteq> []"
    by (simp add: sampled_experiment_simps)
  have 5: "isParticipating sampled_experiment test_world = Inr False"
    by (simp add: isParticipating_test_world sampled_experiment_simps)
  have 6: "test_store (uidKey sampled_experiment) = Some (Number_toString 34702)"
    by (simp add: sampled_experiment_simps test_store_simps)
  have 7: "\<not> Number_lt (parsed_number (Some 34702))
      (Number_mul (Fin 100000) (clamp (sampleSize (options sampled_experiment)) (Fin 0) (Fin 1)))"
    by (simp add: sampled_experiment_simps clamp_def parsed_number_34702 product_0_2)
  show ?thesis
    using segment_eligibility [OF 1 2 3 4 5 6] 7 by (simp add: sampled_experiment_simps)
qed

text \<open>
  The product is rounded before the comparison. With sample size 0.1 the product is
  10000 exactly, so the identity 10000 is not eligible, although the double 0.1 is above
  one tenth; with sample size 0.07 the product is 7000.000000000001, so the identity 7000
  is eligible.
\<close>

lemma Number_toString_10000: "Number_toString 10000 = ''10000''"
  by (simp add: Number_toString_def nat_toString.simps digit_char_def)

lemma Number_toString_7000: "Number_toString 7000 = ''7000''"
  by (simp add: Number_toString_def nat_toString.simps digit_char_def)

lemma canParticipate_rounded_product:
  assumes "max_id e = 100000" "localStorage w = Some st"
  shows "sampleSize (options e) = to_double (1 / 10) \<Longrightarrow> st (uidKey e) = Some ''10000'' \<Longrightarrow>
      canParticipate e w = Inr False"
    and "sampleSize (options e) = to_double (7 / 100) \<Longrightarrow> st (uidKey e) = Some ''7000'' \<Longrightarrow>
      canParticipate e w = Inr True"
proof -
  have n: "parsed_number (Some 10000) = Fin 10000" "parsed_number (Some 7000) = Fin 7000"
    using parsed_number_Some [of 10000] parsed_number_Some [of 7000] by simp_all
  show "canParticipate e w = Inr False"
    if "sampleSize (options e) = to_double (1 / 10)" "st (uidKey e) = Some ''10000''"
    using canParticipate_stored [OF assms, of 10000] that
    by (simp add: Number_toString_10000 double_0_1 clamp_def n product_0_1)
  show "canParticipate e w = Inr True"
    if "sampleSize (options e) = to_double (7 / 100)" "st (uidKey e) = Some ''7000''"
    using canParticipate_stored [OF assms, of 7000] that
    by (simp add: Number_toString_7000 double_0_07 clamp_def n product_0_07)
qed

subsection \<open>Failed segmentation\<close>

lemma clearVariant_available:
  "localStorage w = Some st \<Longrightarrow>
     clearVariant e w = (Inr (), w\<lparr>localStorage := Some (st(experimentKey e := None))\<rparr>)"
  by (simp add: clearVariant_def container_def)

lemma segment_expired_available:
  "hasExpired e w \<Longrightarrow> localStorage w = Some st \<Longrightarrow>
     segment e w = (Inl (Error ''this experiment has expired''),
                    w\<lparr>localStorage := Some (st(experimentKey e := None))\<rparr>)"
  by (simp add: segment_expired clearVariant_available)

lemma isParticipating_error:
  "localStorage w = Some st \<Longrightarrow> isParticipating e w = Inl x \<Longrightarrow> x = SyntaxError"
  by (auto simp: isParticipating_def getVariant_def container_def JSON_parse_def
      split: option.splits if_splits sum.splits prod.splits)

lemma setVariant_available:
  "localStorage w = Some st \<Longrightarrow> fst (setVariant e c w) = Inr ()"
  by (simp add: setVariant_def container_def)

lemma participating_available:
  "localStorage w = Some st \<Longrightarrow> fst (participating e w) = Inr ()"
  by (simp add: participating_def allocateVariant_def random_def setVariant_def container_def)

lemma segment_live_error:
  assumes "localStorage w = Some st" "\<not> hasExpired e w" "variants e \<noteq> []"
    "segment e w = (Inl x, w')"
  shows "x = SyntaxError \<and> w' = w"
proof (cases "isParticipating e w")
  case (Inl y)
  with assms show ?thesis
    using isParticipating_error [OF assms(1) Inl] by (simp add: segment_live)
next
  case (Inr p)
  obtain b where c: "canParticipate e w = Inr b"
    by (simp add: canParticipate_def getId_def container_def assms(1))
  have "fst (segment e w) = Inr ()"
    using setVariant_available [OF assms(1), of e "Id_only ''not-participating''"]
      participating_available [OF assms(1), of e]
    by (simp add: segment_live [OF assms(2,3)] Inr c notParticipating_def split: bool.split)
  with assms(4) show ?thesis
    by simp
qed

text \<open>
  C7, as the code has it. A \<^verbatim>\<open>segment()\<close> that fails because the experiment has expired
  has removed the assignment: none is persisted afterwards. A \<^verbatim>\<open>segment()\<close> that fails
  because there are no variants leaves the world as it was: it persists no new assignment
  and removes none.
\<close>

theorem segment_failure_store:
  assumes "localStorage w = Some st" "segment e w = (Inl x, w')"
  shows "(x = Error ''this experiment has expired'' \<longrightarrow>
           w' = w\<lparr>localStorage := Some (st(experimentKey e := None))\<rparr> \<and> getVariant e w' = Inr None) \<and>
         (x = Error ''this experiment has no variants'' \<longrightarrow> w' = w)"
proof (cases "hasExpired e w")
  case True
  let ?w = "w\<lparr>localStorage := Some (st(experimentKey e := None))\<rparr>"
  have "getVariant e ?w = Inr None"
    by (rule getVariant_absent [of _ "st(experimentKey e := None)"]) simp_all
  moreover from segment_expired_available [OF True assms(1)] assms(2)
  have "x = Error ''this experiment has expired''" "w' = ?w"
    by simp_all
  ultimately show ?thesis
    by simp
next
  case False
  show ?thesis
  proof (cases "variants e = []")
    case True
    from segment_no_variants [OF False True] assms(2)
    have "x = Error ''this experiment has no variants''" "w' = w"
      by simp_all
    then show ?thesis
      by simp
  next
    case nonempty: False
    from segment_live_error [OF assms(1) False nonempty assms(2)] show ?thesis
      by simp
  qed
qed

text \<open>The test of an expired experiment, on a store that holds an assignment.\<close>

theorem segment_failure_store_witness:
  "segment expired_experiment segmented_world =
     (Inl (Error ''this experiment has expired''), test_world\<lparr>random_calls := 2\<rparr>) \<and>
   getVariant expired_experiment (test_world\<lparr>random_calls := 2\<rparr>) = Inr None"
proof -
  let ?st = "test_store(''experiment_test'' \<mapsto> JSON_stringify_id ''variant-B'')"
  have 1: "localStorage segmented_world = Some ?st"
    by (simp add: segmented_world_simps)
  have x: "hasExpired expired_experiment segmented_world"
    by (simp add: hasExpired_def expired_experiment_simps segmented_world_simps)
  have c: "segmented_world\<lparr>localStorage := Some (?st(experimentKey expired_experiment := None))\<rparr>
      = test_world\<lparr>random_calls := 2\<rparr>"
    by (simp add: segmented_world_def test_world_def expired_experiment_simps test_store_def)
  have 2: "segment expired_experiment segmented_world =
      (Inl (Error ''this experiment has expired''), test_world\<lparr>random_calls := 2\<rparr>)"
    using segment_expired_available [OF x 1] by (simp only: c)
  from segment_failure_store [OF 1 2]
  have "getVariant expired_experiment (test_world\<lparr>random_calls := 2\<rparr>) = Inr None"
    by blast
  with 2 show ?thesis
    by (rule conjI)
qed

text \<open>
  C7 as stated fails: with no variant registered, \<^verbatim>\<open>segment()\<close> fails and the assignment
  that was persisted before the call is still there.
\<close>

theorem segment_no_variants_keeps_assignment:
  "segment test_experiment segmented_world =
     (Inl (Error ''this experiment has no variants''), segmented_world) \<and>
   getVariant test_experiment segmented_world = Inr (Some (JObject [(''id'', JString ''variant-B'')]))"
proof -
  have "\<not> hasExpired test_experiment segmented_world"
    by (simp add: not_expired_no_expiry test_experiment_simps)
  then have "segment test_experiment segmented_world =
      (Inl (Error ''this experiment has no variants''), segmented_world)"
    by (simp add: segment_no_variants test_experiment_simps)
  moreover have "getVariant test_experiment segmented_world =
      Inr (Some (JObject [(''id'', JString ''variant-B'')]))"
    by (rule getVariant_stored [of _ "test_store(''experiment_test'' \<mapsto> JSON_stringify_id ''variant-B'')"])
      (simp_all add: segmented_world_simps test_experiment_simps)
  ultimately show ?thesis
    by simp
qed

subsection \<open>The persisted assignment\<close>

lemma allocateVariant_loop_chosen:
  "chosen_id (allocateVariant_loop r c vs) \<in> insert ''no-chosen-variant'' (variant_id ` set vs)"
  by (induction vs arbitrary: c) auto

lemma experimentKey_constructed: "constructed e \<Longrightarrow> experimentKey e = ''experiment_'' @ exp_id e"
  by (simp add: constructed_def)

text \<open>
  C8 as stated fails: the property of the persisted object that holds the identifier is
  \<^verbatim>\<open>id\<close>, not \<^verbatim>\<open>variantId\<close>. After the first segmentation test the assignment read back is
  the object \<^verbatim>\<open>{ id: 'variant-B' }\<close>.
\<close>

theorem assignment_property_is_id:
  "segment test_experiment_AB test_world = (Inr (), segmented_world) \<and>
   getVariant test_experiment_AB segmented_world =
     Inr (Some (JObject [(''id'', JString ''variant-B'')])) \<and>
   getVariant test_experiment_AB segmented_world \<noteq> Inr (Some (spec_assignment ''variant-B''))"
proof -
  have "getVariant test_experiment_AB segmented_world =
      Inr (Some (JObject [(''id'', JString ''variant-B'')]))"
    by (rule getVariant_stored [of _ "test_store(''experiment_test'' \<mapsto> JSON_stringify_id ''variant-B'')"])
      (simp_all add: segmented_world_simps test_experiment_AB_simps)
  then show ?thesis
    by (simp add: segment_test_experiment_AB spec_assignment_def)
qed

text \<open>
  C8, as the code has it. A \<^verbatim>\<open>segment()\<close> that returns, for a user who was not yet
  segmented, has chosen the id of a registered variant or one of the two sentinels; it has
  stored, under the key \<^verbatim>\<open>'experiment_'\<close> followed by the experiment id, the text
  \<^verbatim>\<open>JSON.stringify({ id: c })\<close> for the chosen id \<open>c\<close>, and has left every other key of the
  store as it was; the assignment read back is the object \<^verbatim>\<open>{ id: c }\<close>.
\<close>

theorem segment_persists_assignment:
  assumes "constructed e" "localStorage w = Some st" "isParticipating e w = Inr False"
    and "segment e w = (Inr (), w')"
  shows "\<exists>c. (c \<in> variant_id ` set (variants e) \<or> c = ''no-chosen-variant'' \<or>
           c = ''not-participating'') \<and>
     localStorage w' = Some (st(''experiment_'' @ exp_id e \<mapsto> JSON_stringify_id c)) \<and>
     getVariant e w' = Inr (Some (JObject [(''id'', JString c)]))"
proof -
  have key: "experimentKey e = ''experiment_'' @ exp_id e"
    using assms(1) by (rule experimentKey_constructed)
  have stored: "getVariant e w' = Inr (Some (JObject [(''id'', JString c)]))"
    if "localStorage w' = Some (st(experimentKey e \<mapsto> JSON_stringify_id c))" for c
    using that by (rule getVariant_stored) simp
  from assms(4) show ?thesis
  proof (cases rule: segment_success_cases)
    case 1
    with assms(3) show ?thesis
      by simp
  next
    case 2
    let ?c = "chosen_id (allocateVariant_loop (random_source w (random_calls w)) (Fin 0) (variants e))"
    from 2(3) have l: "localStorage w' = Some (st(experimentKey e \<mapsto> JSON_stringify_id ?c))"
      using assms(2)
      by (auto simp: participating_def allocateVariant_def random_def setVariant_def container_def)
    have "?c \<in> insert ''no-chosen-variant'' (variant_id ` set (variants e))"
      by (rule allocateVariant_loop_chosen)
    then have "?c \<in> variant_id ` set (variants e) \<or> ?c = ''no-chosen-variant'' \<or>
        ?c = ''not-participating''"
      by blast
    with l stored [OF l] show ?thesis
      unfolding key by blast
  next
    case 3
    from 3(3) have l: "localStorage w' =
        Some (st(experimentKey e \<mapsto> JSON_stringify_id ''not-participating''))"
      using assms(2) by (auto simp: notParticipating_def setVariant_def container_def)
    with stored [OF l] show ?thesis
      unfolding key by blast
  qed
qed

text \<open>The first segmentation test: the id of variant B is stored under \<^verbatim>\<open>experiment_test\<close>.\<close>

theorem segment_persists_assignment_witness:
  "\<exists>c. (c \<in> variant_id ` set (variants test_experiment_AB) \<or> c = ''no-chosen-variant'' \<or>
         c = ''not-participating'') \<and>
     localStorage segmented_world =
       Some (test_store(''experiment_'' @ exp_id test_experiment_AB \<mapsto> JSON_stringify_id c)) \<and>
     getVariant test_experiment_AB segmented_world = Inr (Some (JObject [(''id'', JString c)]))"
proof -
  have 1: "constructed test_experiment_AB"
    by (simp add: constructed_def test_experiment_AB_simps)
  have 2: "localStorage test_world = Some test_store"
    by (simp add: test_world_simps)
  have 3: "isParticipating test_experiment_AB test_world = Inr False"
    by (simp add: isParticipating_test_world test_experiment_AB_simps)
  have 4: "segment test_experiment_AB test_world = (Inr (), segmented_world)"
    by (rule segment_test_experiment_AB)
  show ?thesis
    using segment_persists_assignment [OF 1 2 3 4] .
qed

section \<open>Identity and construction\<close>

lemma Number_toString_small: "Number_toString 0 = ''0''" "Number_toString 50000 = ''50000''"
  by (simp_all add: Number_toString_def nat_toString.simps digit_char_def)

lemma parseInt_null: "parseInt ''null'' = None"
  by (simp add: parseInt_def Let_def is_StrWhiteSpaceChar_def digit_value_def)

lemma Number_toString_40000: "Number_toString 40000 = ''40000''"
  by (simp add: Number_toString_def nat_toString.simps digit_char_def)

lemma double_50000: "to_double 50000 = Fin 50000"
  using to_double_of_int [of 50000] by simp

lemma double_40000: "to_double 40000 = Fin 40000"
  using to_double_of_int [of 40000] by simp

text \<open>The identities that the draws 0.000001, 0.5 and 0.39999999999999997 give.\<close>

lemma identity_draws:
  "Math_floor (Number_add (Number_mul (to_double (1 / 1000000)) (Fin 100000)) (Fin 0)) = Fin 0"
  "Math_floor (Number_add (Number_mul (Fin (1 / 2)) (Fin 100000)) (Fin 0)) = Fin 50000"
  "Math_floor (Number_add (Number_mul (to_double (39999999999999997 / 100000000000000000))
     (Fin 100000)) (Fin 0)) = Fin 40000"
  by (simp_all add: double_0_000001 product_0_000001 product_0_000001_fixed double_50000
      double_0_39999999999999997 product_0_39999999999999997 double_40000 floor_eq_iff)

lemma hasId_stored:
  "localStorage w = Some st \<Longrightarrow> st (uidKey e) = Some (Number_toString n) \<Longrightarrow> hasId e w = Inr (n \<noteq> 0)"
  by (simp add: hasId_def getId_stored)

lemma hasId_absent:
  "localStorage w = Some st \<Longrightarrow> st (uidKey e) = None \<Longrightarrow> hasId e w = Inr False"
  by (simp add: hasId_def getId_def container_def ToString_item_def parseInt_null)

lemma generateRandomId_available:
  "localStorage w = Some st \<Longrightarrow>
     generateRandomId e mn mx w =
       (Inr (Math_floor (Number_add (Number_mul (random_source w (random_calls w)) (Fin (of_int mx)))
               (Fin (of_int mn)))),
        w\<lparr>random_calls := Suc (random_calls w),
          localStorage := Some (st(uidKey e \<mapsto>
            ToString_number (Math_floor (Number_add
              (Number_mul (random_source w (random_calls w)) (Fin (of_int mx))) (Fin (of_int mn))))))\<rparr>)"
  by (simp add: generateRandomId_def random_def setId_def container_def Let_def)

text \<open>
  The product is rounded before the floor is taken: the draw 0.39999999999999997 gives the
  identity 40000, although the draw is below four tenths.
\<close>

lemma generateRandomId_rounded_product:
  assumes "localStorage w = Some st"
    and "random_source w (random_calls w) = to_double (39999999999999997 / 100000000000000000)"
  shows "generateRandomId e 0 100000 w =
     (Inr (Fin 40000),
      w\<lparr>random_calls := Suc (random_calls w), localStorage := Some (st(uidKey e \<mapsto> ''40000''))\<rparr>)"
proof -
  have "ToString_number (Fin 40000) = ''40000''"
    using Number_toString_40000 by (simp add: ToString_number_def)
  then show ?thesis
    using generateRandomId_available [OF assms(1), of e 0 100000]
    by (simp only: assms(2) of_int_0 of_int_numeral identity_draws)
qed

text \<open>A persisted identity other than 0 is read back, and nothing is generated or written.\<close>

lemma assignId_reuses:
  "localStorage w = Some st \<Longrightarrow> st (uidKey e) = Some (Number_toString n) \<Longrightarrow> n \<noteq> 0 \<Longrightarrow>
     assignId e w = (Inr (parsed_number (Some n)), w)"
  by (simp add: assignId_def hasId_stored getId_stored)

text \<open>The persisted identity 0 is falsy for \<^verbatim>\<open>hasId\<close>: a new identity is drawn and overwrites it.\<close>

lemma assignId_zero_regenerates:
  "localStorage w = Some st \<Longrightarrow> st (uidKey e) = Some (Number_toString 0) \<Longrightarrow>
     assignId e w = generateRandomId e (min_id e) (max_id e) w"
  by (simp add: assignId_def hasId_stored)

lemma assignId_absent:
  "localStorage w = Some st \<Longrightarrow> st (uidKey e) = None \<Longrightarrow>
     assignId e w = generateRandomId e (min_id e) (max_id e) w"
  by (simp add: assignId_def hasId_absent)


subsection \<open>Construction\<close>

lemma missing_id_Str: "missing_id (Str s) \<longleftrightarrow> s = ''undefined''"
  by (simp add: missing_id_def)

lemma missing_id_not_string: "\<not> typeof_string i \<Longrightarrow> missing_id i"
  by (simp add: missing_id_def)

lemma Conical_not_string:
  "\<not> typeof_string i \<Longrightarrow> Conical i d opts w = (Inl (Error ''experiment id is required''), w)"
  by (cases i) (simp_all add: Conical_def)

lemma Conical_string:
  "s \<noteq> ''undefined'' \<Longrightarrow> Conical (Str s) d opts w =
     (case assignId (initial s d opts) w of
        (Inl x, w') \<Rightarrow> (Inl x, w')
      | (Inr n, w') \<Rightarrow> (Inr (initial s d opts), w'))"
  by (simp add: Conical_def missing_id_Str Let_def)

lemma initial_simps:
  "exp_id (initial s d opts) = s" "uidKey (initial s d opts) = ''conical_uid''"
  "storagePrefix (initial s d opts) = ''experiment_''"
  "experimentKey (initial s d opts) = ''experiment_'' @ s"
  "min_id (initial s d opts) = 0" "max_id (initial s d opts) = 100000"
  "hasConverted (initial s d opts) = False" "variants (initial s d opts) = []"
  by (simp_all add: initial_def)

lemma constructed_initial: "constructed (initial s d opts)"
  by (simp add: constructed_def initial_simps)

lemma test_experiment_initial:
  "initial ''test'' (Str ''this is a test experiment'') no_options = test_experiment"
  by (simp add: initial_def test_experiment_def no_options_def)

text \<open>With the store available, construction with a string other than \<^verbatim>\<open>'undefined'\<close> succeeds.\<close>

lemma assignId_available:
  assumes "localStorage w = Some st"
  shows "\<exists>n w'. assignId e w = (Inr n, w')"
proof (cases "hasId e w")
  case (Inl x)
  with assms show ?thesis
    by (simp add: hasId_def getId_def container_def)
next
  case (Inr b)
  show ?thesis
  proof (cases b)
    case True
    with Inr assms show ?thesis
      by (simp add: assignId_def getId_def container_def)
  next
    case False
    with Inr assms show ?thesis
      by (simp add: assignId_def generateRandomId_available)
  qed
qed

lemma Conical_available:
  assumes "s \<noteq> ''undefined''" "localStorage w = Some st"
  shows "\<exists>w'. Conical (Str s) d opts w = (Inr (initial s d opts), w')"
proof -
  from assignId_available [OF assms(2)] obtain n w' where "assignId (initial s d opts) w = (Inr n, w')"
    by blast
  then show ?thesis
    by (simp add: Conical_string [OF assms(1)])
qed

text \<open>A later construction reads back a persisted identity other than 0 and changes nothing.\<close>

lemma Conical_reuses_identity:
  assumes "s \<noteq> ''undefined''" "localStorage w = Some st"
    "st ''conical_uid'' = Some (Number_toString n)" "n \<noteq> 0"
  shows "Conical (Str s) d opts w = (Inr (initial s d opts), w)"
proof -
  have "assignId (initial s d opts) w = (Inr (parsed_number (Some n)), w)"
    using assms(2) _ assms(4) by (rule assignId_reuses) (simp add: initial_simps assms(3))
  then show ?thesis
    by (simp add: Conical_string [OF assms(1)])
qed

lemma first_visit_world_simps:
  "localStorage first_visit_world = Some Map.empty" "now first_visit_world = 1000"
  "random_source first_visit_world 0 = to_double (1 / 1000000)"
  "random_source first_visit_world (Suc n) = Fin (1 / 2)"
  "random_calls first_visit_world = 0" "calls first_visit_world = []"
  by (simp_all add: first_visit_world_def fresh_world_def)

lemma zero_world_simps:
  "localStorage zero_world = Some zero_store" "random_source zero_world (Suc n) = Fin (1 / 2)"
  "random_calls zero_world = 1"
  by (simp_all add: zero_world_def first_visit_world_simps)

text \<open>
  C4 fails on the identity 0. A first visit whose draw is below 0.00001 persists the
  identity 0. The next construction finds \<^verbatim>\<open>!!parseInt('0')\<close> false, draws again and
  overwrites the identity with 50000.
\<close>

theorem identity_zero_regenerated:
  "Conical (Str ''test'') (Str ''this is a test experiment'') no_options first_visit_world =
     (Inr test_experiment, zero_world) \<and>
   getId test_experiment zero_world = Inr (Some 0) \<and>
   Conical (Str ''test'') (Str ''this is a test experiment'') no_options zero_world =
     (Inr test_experiment, regenerated_world) \<and>
   getId test_experiment regenerated_world = Inr (Some 50000)"
proof -
  let ?e = "initial ''test'' (Str ''this is a test experiment'') no_options"
  have u: "''test'' \<noteq> ''undefined''"
    by simp
  have "assignId ?e first_visit_world = generateRandomId ?e 0 100000 first_visit_world"
    using assignId_absent [of first_visit_world Map.empty ?e]
    by (simp add: first_visit_world_simps initial_simps)
  also have "\<dots> = (Inr (Fin 0), zero_world)"
    using generateRandomId_available [of first_visit_world Map.empty ?e 0 100000]
    by (simp add: first_visit_world_simps initial_simps identity_draws ToString_number_def
        Number_toString_small zero_world_def zero_store_def)
  finally have 1: "Conical (Str ''test'') (Str ''this is a test experiment'') no_options first_visit_world =
      (Inr test_experiment, zero_world)"
    by (simp add: Conical_string [OF u] test_experiment_initial)
  have z: "zero_store (uidKey ?e) = Some (Number_toString 0)"
    by (simp add: zero_store_def initial_simps Number_toString_small)
  have 2: "getId test_experiment zero_world = Inr (Some 0)"
    using getId_stored [OF zero_world_simps(1) z] by (simp add: test_experiment_initial)
  have "assignId ?e zero_world = generateRandomId ?e 0 100000 zero_world"
    using assignId_zero_regenerates [OF zero_world_simps(1) z] by (simp add: initial_simps)
  also have "\<dots> = (Inr (Fin 50000), zero_world\<lparr>random_calls := 2,
      localStorage := Some (zero_store(''conical_uid'' \<mapsto> ''50000''))\<rparr>)"
    using generateRandomId_available [OF zero_world_simps(1), of ?e 0 100000]
    by (simp add: zero_world_simps initial_simps double_50000 ToString_number_def
        Number_toString_small numeral_2_eq_2)
  also have "zero_world\<lparr>random_calls := 2,
      localStorage := Some (zero_store(''conical_uid'' \<mapsto> ''50000''))\<rparr> = regenerated_world"
    by (simp add: zero_world_def zero_store_def regenerated_world_def)
  finally have 3: "Conical (Str ''test'') (Str ''this is a test experiment'') no_options zero_world =
      (Inr test_experiment, regenerated_world)"
    by (simp add: Conical_string [OF u] test_experiment_initial)
  have "getId test_experiment regenerated_world = Inr (Some 50000)"
    by (rule getId_stored [of _ "[''conical_uid'' \<mapsto> ''50000'']"])
      (simp_all add: regenerated_world_def test_experiment_simps Number_toString_small)
  with 1 2 3 show ?thesis
    by simp
qed


text \<open>
  C9 as stated fails: the empty string passes the guard of the constructor, and the
  experiment is built with the empty id.
\<close>

theorem Conical_accepts_empty_id:
  "fst (Conical (Str []) Undefined no_options fresh_world) = Inr (initial [] Undefined no_options) \<and>
   exp_id (initial [] Undefined no_options) = []"
proof -
  have "[] \<noteq> ''undefined''"
    by simp
  from Conical_available [OF this, of fresh_world Map.empty Undefined no_options]
  show ?thesis
    by (auto simp: fresh_world_def initial_simps)
qed

text \<open>
  C9, as the code has it. Construction fails with the error \<^verbatim>\<open>experiment id is required\<close>
  whenever the id is not a string. For every string other than \<^verbatim>\<open>'undefined'\<close>, the
  empty string included, construction does not fail with that error, and with the store
  available it succeeds and the experiment carries that id.
\<close>

theorem Conical_validation:
  "(\<not> typeof_string i \<longrightarrow> Conical i d opts w = (Inl (Error ''experiment id is required''), w)) \<and>
   (s \<noteq> ''undefined'' \<longrightarrow> fst (Conical (Str s) d opts w) \<noteq> Inl (Error ''experiment id is required'')) \<and>
   (s \<noteq> ''undefined'' \<and> localStorage w \<noteq> None \<longrightarrow>
      (\<exists>e w'. Conical (Str s) d opts w = (Inr e, w') \<and> exp_id e = s \<and> constructed e))"
proof (intro conjI impI)
  assume "\<not> typeof_string i"
  then show "Conical i d opts w = (Inl (Error ''experiment id is required''), w)"
    by (rule Conical_not_string)
next
  assume s: "s \<noteq> ''undefined''"
  show "fst (Conical (Str s) d opts w) \<noteq> Inl (Error ''experiment id is required'')"
  proof (cases "localStorage w")
    case None
    then have "assignId (initial s d opts) w =
        (Inl (Error ''localStorage is unavailable in this environment''), w)"
      by (simp add: assignId_def hasId_def getId_def container_def)
    then show ?thesis
      by (simp add: Conical_string [OF s])
  next
    case (Some st)
    from Conical_available [OF s Some, of d opts] obtain w' where
      "Conical (Str s) d opts w = (Inr (initial s d opts), w')"
      by blast
    then show ?thesis
      by simp
  qed
next
  assume "s \<noteq> ''undefined'' \<and> localStorage w \<noteq> None"
  then obtain st where "s \<noteq> ''undefined''" "localStorage w = Some st"
    by auto
  from Conical_available [OF this, of d opts]
  show "\<exists>e w'. Conical (Str s) d opts w = (Inr e, w') \<and> exp_id e = s \<and> constructed e"
    using constructed_initial initial_simps(1) by blast
qed

text \<open>The first tests of the suite: no id, and the id \<^verbatim>\<open>'test'\<close>.\<close>

theorem Conical_validation_witness:
  "Conical Undefined Undefined no_options fresh_world =
     (Inl (Error ''experiment id is required''), fresh_world) \<and>
   (\<exists>e w'. Conical (Str ''test'') (Str ''this is a test experiment'') no_options fresh_world = (Inr e, w') \<and>
      exp_id e = ''test'' \<and> constructed e)"
proof -
  have 1: "\<not> typeof_string Undefined"
    by simp
  have 2: "''test'' \<noteq> ''undefined'' \<and> localStorage fresh_world \<noteq> None"
    by (simp add: fresh_world_def)
  from Conical_validation [of Undefined Undefined no_options fresh_world "''test''"] 1
  have a: "Conical Undefined Undefined no_options fresh_world =
      (Inl (Error ''experiment id is required''), fresh_world)"
    by blast
  from Conical_validation [of Undefined "Str ''this is a test experiment''" no_options fresh_world "''test''"] 2
  have "\<exists>e w'. Conical (Str ''test'') (Str ''this is a test experiment'') no_options fresh_world = (Inr e, w') \<and>
      exp_id e = ''test'' \<and> constructed e"
    by blast
  with a show ?thesis
    by (rule conjI)
qed

subsection \<open>Registering a variant\<close>

lemma weight_or_default_nonzero: "weight_or_default w \<noteq> Fin 0"
  by (simp add: weight_or_default_def ToBoolean_number_def split: option.split)

lemma weight_or_default_truthy: "ToBoolean_number (weight_or_default w)"
  by (simp add: weight_or_default_def ToBoolean_number_def split: option.split)

lemma addVariant_success:
  "addVariant i opts cb e = Inr e' \<Longrightarrow>
     \<exists>s w c. i = Str s \<and> s \<noteq> ''undefined'' \<and>
       e' = e\<lparr>variants := variants e @ [\<lparr>variant_id = s, weight = weight_or_default w, callback = c\<rparr>]\<rparr>"
  by (auto simp: addVariant_def missing_id_Str split: arg.splits if_splits)

text \<open>
  C10. A call of \<^verbatim>\<open>addVariant\<close> with the explicit weight 0 (and a valid id) stores the
  variant with weight 0.5, and no successful call of \<^verbatim>\<open>addVariant\<close> whatever registers a
  variant of weight 0.
\<close>

theorem addVariant_zero_weight:
  "(s \<noteq> ''undefined'' \<longrightarrow>
      addVariant (Str s) (Obj (Some (Fin 0))) cb e =
        Inr (e\<lparr>variants := variants e @ [\<lparr>variant_id = s, weight = Fin (1 / 2), callback = cb\<rparr>]\<rparr>)) \<and>
   (addVariant i opts cb e = Inr e' \<longrightarrow> (\<exists>v. variants e' = variants e @ [v] \<and> weight v \<noteq> Fin 0))"
proof (intro conjI impI)
  assume "s \<noteq> ''undefined''"
  then show "addVariant (Str s) (Obj (Some (Fin 0))) cb e =
      Inr (e\<lparr>variants := variants e @ [\<lparr>variant_id = s, weight = Fin (1 / 2), callback = cb\<rparr>]\<rparr>)"
    by (simp add: addVariant_def missing_id_Str weight_or_default_def ToBoolean_number_def)
next
  assume "addVariant i opts cb e = Inr e'"
  then obtain s w c where
    "e' = e\<lparr>variants := variants e @ [\<lparr>variant_id = s, weight = weight_or_default w, callback = c\<rparr>]\<rparr>"
    using addVariant_success by blast
  then show "\<exists>v. variants e' = variants e @ [v] \<and> weight v \<noteq> Fin 0"
    by (simp add: weight_or_default_nonzero)
qed

theorem addVariant_zero_weight_witness:
  "addVariant (Str ''variant'') (Obj (Some (Fin 0))) (Fun (Fn 1 False)) test_experiment =
     Inr (test_experiment\<lparr>variants :=
       [\<lparr>variant_id = ''variant'', weight = Fin (1 / 2), callback = Fun (Fn 1 False)\<rparr>]\<rparr>) \<and>
   (\<exists>v. variants (test_experiment\<lparr>variants :=
       [\<lparr>variant_id = ''variant'', weight = Fin (1 / 2), callback = Fun (Fn 1 False)\<rparr>]\<rparr>) = variants test_experiment @ [v] \<and>
      weight v \<noteq> Fin 0)"
proof -
  let ?e' = "test_experiment\<lparr>variants :=
       [\<lparr>variant_id = ''variant'', weight = Fin (1 / 2), callback = Fun (Fn 1 False)\<rparr>]\<rparr>"
  have 1: "''variant'' \<noteq> ''undefined''"
    by simp
  from addVariant_zero_weight [of "''variant''" "Fun (Fn 1 False)" test_experiment "Str ''variant''" "Obj (Some (Fin 0))" ?e'] 1
  have a: "addVariant (Str ''variant'') (Obj (Some (Fin 0))) (Fun (Fn 1 False)) test_experiment = Inr ?e'"
    by (simp add: test_experiment_simps)
  from addVariant_zero_weight [of "''variant''" "Fun (Fn 1 False)" test_experiment "Str ''variant''" "Obj (Some (Fin 0))" ?e'] a
  have "\<exists>v. variants ?e' = variants test_experiment @ [v] \<and> weight v \<noteq> Fin 0"
    by blast
  with a show ?thesis
    by (rule conjI)
qed

subsection \<open>Starting\<close>

lemma start_unsegmented:
  "variants e \<noteq> [] \<Longrightarrow> getVariant e w = Inr None \<Longrightarrow> start e args w = (Inl TypeError, w)"
  by (cases "variants e") (simp_all add: start_def)

lemma start_no_variants:
  "variants e = [] \<Longrightarrow> getVariant e w = Inr v \<Longrightarrow> start e args w = (Inr (), w)"
  by (simp add: start_def)

text \<open>
  C5 fails on the code: with a variant registered and no assignment persisted,
  \<^verbatim>\<open>getVariant()\<close> returns \<^verbatim>\<open>undefined\<close> and the first round of the loop of \<^verbatim>\<open>start()\<close> reads
  \<^verbatim>\<open>chosenVariant.id\<close>, which throws a \<^verbatim>\<open>TypeError\<close>. No function has been called and the
  world is unchanged, but the call fails.
\<close>

theorem start_unsegmented_TypeError:
  "getVariant test_experiment_AB test_world = Inr None \<and>
   start test_experiment_AB [] test_world = (Inl TypeError, test_world)"
proof -
  have g: "getVariant test_experiment_AB test_world = Inr None"
    by (rule getVariant_absent [of _ test_store])
      (simp_all add: test_world_simps test_experiment_AB_simps test_store_simps)
  have "variants test_experiment_AB \<noteq> []"
    by (simp add: test_experiment_AB_simps)
  from start_unsegmented [OF this g] g show ?thesis
    by simp
qed

section \<open>Completion\<close>

lemma call_all_returning:
  "\<forall>f \<in> set fs. \<not> fn_throws f \<Longrightarrow>
     call_all (map Fun fs) a w = (Inr (), w\<lparr>calls := calls w @ map (\<lambda>f. Invoked (fn_name f) a) fs\<rparr>)"
proof (induction fs arbitrary: w)
  case Nil
  show ?case by simp
next
  case (Cons f fs)
  then show ?case by (simp add: Let_def)
qed

lemma complete_converted:
  "hasConverted e \<Longrightarrow> complete_experiment e w = (Inl (Error ''this experiment is already complete''), e, w)"
  by (simp add: complete_experiment_def)

lemma trigger_hasConverted: "trigger (e\<lparr>hasConverted := b\<rparr>) event v w = trigger e event v w"
  by (simp add: trigger_def)

lemma complete_first:
  "\<not> hasConverted e \<Longrightarrow> getVariant e w = Inr v \<Longrightarrow>
     complete_experiment e w = (fst (trigger e ''complete'' v w), e\<lparr>hasConverted := True\<rparr>, snd (trigger e ''complete'' v w))"
  by (simp add: complete_experiment_def trigger_hasConverted split: prod.split)

lemma complete_sets_or_keeps:
  "complete_experiment e w = (r, e', w') \<Longrightarrow> e' = e \<or> e' = e\<lparr>hasConverted := True\<rparr>"
  by (auto simp: complete_experiment_def trigger_hasConverted split: if_splits sum.splits prod.splits)

lemma complete_success_converted:
  assumes "complete_experiment e w = (Inr u, e', w')"
  shows "hasConverted e'"
proof -
  from assms have n: "\<not> hasConverted e"
    by (auto simp: complete_experiment_def)
  show ?thesis
  proof (cases "getVariant e w")
    case (Inl x)
    with n assms show ?thesis by (simp add: complete_experiment_def)
  next
    case (Inr v)
    from complete_first [OF n Inr] assms show ?thesis by auto
  qed
qed

lemma addVariant_hasConverted: "addVariant i opts cb e = Inr e' \<Longrightarrow> hasConverted e' = hasConverted e"
  using addVariant_success [of i opts cb e e'] by auto

lemma on_hasConverted: "on event cb e = Inr e' \<Longrightarrow> hasConverted e' = hasConverted e"
  by (auto simp: on_def split: arg.splits if_splits)

text \<open>No method resets \<^verbatim>\<open>hasConverted\<close>.\<close>

lemma invoke_keeps_converted:
  assumes "hasConverted e" "invoke s e w = (r, e', w')"
  shows "hasConverted e'"
proof (cases s)
  case (AddVariant i opts cb)
  with assms show ?thesis
    by (cases "addVariant i opts cb e") (auto simp: addVariant_hasConverted)
next
  case (On event cb)
  with assms show ?thesis
    by (cases "on event cb e") (auto simp: on_hasConverted)
next
  case Segment
  with assms show ?thesis by (auto split: prod.splits)
next
  case (Start args)
  with assms show ?thesis by (auto split: prod.splits)
next
  case Complete
  with assms show ?thesis by (simp add: complete_converted)
next
  case (Elsewhere f)
  with assms show ?thesis by simp
qed

lemma completions_Cons:
  "invoke s e w = (r, e', w') \<Longrightarrow>
     completions (s # ss) e w = (if s = Complete \<and> r = Inr () then 1 else 0) + completions ss e' w'"
  by (simp add: completions_def)

lemma completions_converted: "hasConverted e \<Longrightarrow> completions ss e w = 0"
proof (induction ss arbitrary: e w)
  case Nil
  show ?case by (simp add: completions_def)
next
  case (Cons s ss)
  obtain r e' w' where i: "invoke s e w = (r, e', w')"
    by (cases "invoke s e w") auto
  from invoke_keeps_converted [OF Cons.prems i] have "completions ss e' w' = 0"
    by (rule Cons.IH)
  moreover have "\<not> (s = Complete \<and> r = Inr ())"
    using i Cons.prems by (auto simp: complete_converted)
  ultimately show ?case
    by (simp add: completions_Cons [OF i])
qed

lemma completions_le_1: "completions ss e w \<le> 1"
proof (induction ss arbitrary: e w)
  case Nil
  show ?case by (simp add: completions_def)
next
  case (Cons s ss)
  obtain r e' w' where i: "invoke s e w = (r, e', w')"
    by (cases "invoke s e w") auto
  show ?case
  proof (cases "s = Complete \<and> r = Inr ()")
    case True
    with i have "hasConverted e'"
      using complete_success_converted [of e w "()" e' w'] by simp
    then have "completions ss e' w' = 0"
      by (rule completions_converted)
    then show ?thesis
      by (simp add: completions_Cons [OF i])
  next
    case False
    then have "completions (s # ss) e w = completions ss e' w'"
      unfolding completions_Cons [OF i] by (simp only: if_False add_0)
    with Cons.IH [of e' w'] show ?thesis
      by simp
  qed
qed

text \<open>
  C6. \<^verbatim>\<open>complete()\<close> succeeds at most once per instance. A call on an instance that has
  not converted reads the assignment, sets \<^verbatim>\<open>hasConverted\<close> and triggers \<^verbatim>\<open>complete\<close> with
  that assignment: when the handlers registered for \<^verbatim>\<open>complete\<close> are functions that
  return, each is called once, in order, with the assignment, and the call succeeds. A
  call on an instance that has converted fails with \<^verbatim>\<open>this experiment is already complete\<close>
  and changes nothing. In any run of method calls on one instance, at most one call of
  \<^verbatim>\<open>complete()\<close> succeeds.
\<close>

theorem complete_at_most_once:
  "(hasConverted e \<longrightarrow> complete_experiment e w = (Inl (Error ''this experiment is already complete''), e, w)) \<and>
   (\<not> hasConverted e \<and> getVariant e w = Inr v \<longrightarrow>
      complete_experiment e w =
        (fst (trigger e ''complete'' v w), e\<lparr>hasConverted := True\<rparr>, snd (trigger e ''complete'' v w))) \<and>
   (\<not> hasConverted e \<and> getVariant e w = Inr v \<and> handlers e ''complete'' = map Fun fs \<and>
      (\<forall>f \<in> set fs. \<not> fn_throws f) \<longrightarrow>
      complete_experiment e w =
        (Inr (), e\<lparr>hasConverted := True\<rparr>,
         w\<lparr>calls := calls w @ map (\<lambda>f. Invoked (fn_name f) (Assignment v)) fs\<rparr>)) \<and>
   completions ss e w \<le> 1"
proof (intro conjI impI)
  assume "hasConverted e"
  then show "complete_experiment e w = (Inl (Error ''this experiment is already complete''), e, w)"
    by (rule complete_converted)
next
  assume "\<not> hasConverted e \<and> getVariant e w = Inr v"
  then show "complete_experiment e w =
      (fst (trigger e ''complete'' v w), e\<lparr>hasConverted := True\<rparr>, snd (trigger e ''complete'' v w))"
    using complete_first by blast
next
  assume a: "\<not> hasConverted e \<and> getVariant e w = Inr v \<and> handlers e ''complete'' = map Fun fs \<and>
      (\<forall>f \<in> set fs. \<not> fn_throws f)"
  then have "trigger e ''complete'' v w =
      (Inr (), w\<lparr>calls := calls w @ map (\<lambda>f. Invoked (fn_name f) (Assignment v)) fs\<rparr>)"
    by (simp add: trigger_def call_all_returning)
  with a show "complete_experiment e w =
      (Inr (), e\<lparr>hasConverted := True\<rparr>,
       w\<lparr>calls := calls w @ map (\<lambda>f. Invoked (fn_name f) (Assignment v)) fs\<rparr>)"
    by (simp add: complete_first)
next
  show "completions ss e w \<le> 1"
    by (rule completions_le_1)
qed

text \<open>
  The completion tests: after the first segmentation, the handler of \<^verbatim>\<open>complete\<close> is
  called with the assignment, and a second \<^verbatim>\<open>complete()\<close> fails.
\<close>

theorem complete_at_most_once_witness:
  "complete_experiment completing_experiment segmented_world =
     (Inr (), completing_experiment\<lparr>hasConverted := True\<rparr>,
      segmented_world\<lparr>calls := [Invoked 7 (Assignment (Some (JObject [(''id'', JString ''variant-B'')])))]\<rparr>) \<and>
   complete_experiment (completing_experiment\<lparr>hasConverted := True\<rparr>)
       (segmented_world\<lparr>calls := [Invoked 7 (Assignment (Some (JObject [(''id'', JString ''variant-B'')])))]\<rparr>) =
     (Inl (Error ''this experiment is already complete''), completing_experiment\<lparr>hasConverted := True\<rparr>,
      segmented_world\<lparr>calls := [Invoked 7 (Assignment (Some (JObject [(''id'', JString ''variant-B'')])))]\<rparr>) \<and>
   completions [Complete, Complete] completing_experiment segmented_world \<le> 1"
proof -
  let ?v = "Some (JObject [(''id'', JString ''variant-B'')])"
  let ?e' = "completing_experiment\<lparr>hasConverted := True\<rparr>"
  let ?w' = "segmented_world\<lparr>calls := [Invoked 7 (Assignment ?v)]\<rparr>"
  have k: "experimentKey completing_experiment = ''experiment_test''"
    "hasConverted completing_experiment = False"
    "handlers completing_experiment ''complete'' = map Fun [Fn 7 False]"
    by (simp_all add: completing_experiment_def test_experiment_simps)
  have g: "getVariant completing_experiment segmented_world = Inr ?v"
    by (rule getVariant_stored [of _ "test_store(''experiment_test'' \<mapsto> JSON_stringify_id ''variant-B'')"])
      (simp_all add: segmented_world_simps k)
  have h: "\<not> hasConverted completing_experiment \<and> getVariant completing_experiment segmented_world = Inr ?v \<and>
      handlers completing_experiment ''complete'' = map Fun [Fn 7 False] \<and>
      (\<forall>f \<in> set [Fn 7 False]. \<not> fn_throws f)"
    using g k by simp
  from complete_at_most_once [of completing_experiment segmented_world ?v "[Fn 7 False]" "[Complete, Complete]"] h
  have "complete_experiment completing_experiment segmented_world =
      (Inr (), ?e', segmented_world\<lparr>calls := calls segmented_world @
         map (\<lambda>f. Invoked (fn_name f) (Assignment ?v)) [Fn 7 False]\<rparr>)"
    by blast
  then have 1: "complete_experiment completing_experiment segmented_world = (Inr (), ?e', ?w')"
    by (simp add: segmented_world_simps)
  have c: "hasConverted ?e'"
    by simp
  from complete_at_most_once [of ?e' ?w' ?v "[Fn 7 False]" "[Complete, Complete]"] c
  have 2: "complete_experiment ?e' ?w' = (Inl (Error ''this experiment is already complete''), ?e', ?w')"
    by blast
  from complete_at_most_once [of completing_experiment segmented_world ?v "[Fn 7 False]" "[Complete, Complete]"]
  have 3: "completions [Complete, Complete] completing_experiment segmented_world \<le> 1"
    by blast
  from 1 2 3 show ?thesis
    by (intro conjI)
qed

end
